theory Spec2Isabelle
  imports Main "HOL-Library.Sublist"
begin

section \<open>Strings and numbers as Python renders them\<close>

text \<open>
  \<^verbatim>\<open>str.endswith\<close>: the suffix has to fit and the last characters have to be the
  suffix.
\<close>

definition endswith :: "string \<Rightarrow> string \<Rightarrow> bool" where
  "endswith s suf \<longleftrightarrow> length suf \<le> length s \<and> drop (length s - length suf) s = suf"

definition digit_char :: "nat \<Rightarrow> char" where
  "digit_char d = ''0123456789'' ! d"

text \<open>The decimal rendering of a non-negative integer, as \<^verbatim>\<open>str\<close> and an f-string give it.\<close>

fun str_nat :: "nat \<Rightarrow> string" where
  "str_nat n = (if n < 10 then [digit_char n] else str_nat (n div 10) @ [digit_char (n mod 10)])"

declare str_nat.simps [simp del]

definition str_int :: "int \<Rightarrow> string" where
  "str_int i = (if i < 0 then CHR ''-'' # str_nat (nat (- i)) else str_nat (nat i))"

text \<open>
  An option of the command line that was not given is \<^verbatim>\<open>None\<close>; an f-string renders
  it as the four characters \<^verbatim>\<open>None\<close>.
\<close>

definition fmt_optional :: "string option \<Rightarrow> string" where
  "fmt_optional v = (case v of None \<Rightarrow> ''None'' | Some s \<Rightarrow> s)"

text \<open>\<^verbatim>\<open>range(n)\<close>: empty when \<open>n\<close> is zero or negative.\<close>

definition range_py :: "int \<Rightarrow> nat list" where
  "range_py n = [0..<nat n]"

section \<open>Paths (pathlib, POSIX flavour)\<close>

text \<open>
  A \<^verbatim>\<open>pathlib.Path\<close> is an anchor (rooted or not) and a list of components. Parsing a
  string drops empty components and \<^verbatim>\<open>.\<close> components and keeps \<^verbatim>\<open>..\<close>; the
  special root of exactly two leading slashes is not distinguished from one slash.
\<close>

record path =
  rooted :: bool
  parts :: "string list"

fun split_slash :: "string \<Rightarrow> string list" where
  "split_slash [] = [[]]"
| "split_slash (c # cs) =
     (if c = CHR ''/'' then [] # split_slash cs
      else (case split_slash cs of
              [] \<Rightarrow> [[c]]
            | x # xs \<Rightarrow> (c # x) # xs))"

definition Path :: "string \<Rightarrow> path" where
  "Path s = \<lparr> rooted = (case s of [] \<Rightarrow> False | c # _ \<Rightarrow> c = CHR ''/''),
             parts = filter (\<lambda>p. p \<noteq> [] \<and> p \<noteq> ''.'') (split_slash s) \<rparr>"

text \<open>The operator \<^verbatim>\<open>/\<close>: a rooted right operand replaces the left one.\<close>

definition joinpath :: "path \<Rightarrow> path \<Rightarrow> path" where
  "joinpath p q = (if rooted q then q else \<lparr> rooted = rooted p, parts = parts p @ parts q \<rparr>)"

fun intercalate :: "string \<Rightarrow> string list \<Rightarrow> string" where
  "intercalate sep [] = []"
| "intercalate sep [x] = x"
| "intercalate sep (x # y # ys) = x @ sep @ intercalate sep (y # ys)"

text \<open>\<^verbatim>\<open>str(path)\<close>, which is also what a subprocess receives for a path argument.\<close>

definition str_path :: "path \<Rightarrow> string" where
  "str_path p =
     (if rooted p then CHR ''/'' # intercalate ''/'' (parts p)
      else if parts p = [] then ''.''
      else intercalate ''/'' (parts p))"

text \<open>\<^verbatim>\<open>str.rfind\<close> of one character: the last index, or \<open>-1\<close>.\<close>

definition rfind :: "char \<Rightarrow> string \<Rightarrow> int" where
  "rfind c s =
     (if c \<in> set s then int (length s) - 1 - int (length (takeWhile (\<lambda>x. x \<noteq> c) (rev s)))
      else - 1)"

text \<open>
  \<^verbatim>\<open>PurePath.suffix\<close>: the part of the name from its last dot, unless that dot is the
  first or the last character of the name.
\<close>

definition suffix_of :: "string \<Rightarrow> string" where
  "suffix_of name =
     (let i = rfind CHR ''.'' name
      in if 0 < i \<and> i < int (length name) - 1 then drop (nat i) name else [])"

text \<open>
  \<^verbatim>\<open>PurePath.with_suffix\<close>: the last component with its suffix replaced (appended when
  it has none). A path with no name raises \<^verbatim>\<open>ValueError\<close>: the result is \<open>None\<close>.
\<close>

definition with_suffix :: "path \<Rightarrow> string \<Rightarrow> path option" where
  "with_suffix p sfx =
     (if parts p = [] then None
      else let name = last (parts p);
               old = suffix_of name;
               name' = (if old = [] then name @ sfx
                        else take (length name - length old) name @ sfx)
           in Some (p\<lparr> parts := butlast (parts p) @ [name'] \<rparr>))"

text \<open>A path lies inside a directory when the directory's components are a proper prefix of its own.\<close>

definition inside :: "path \<Rightarrow> path \<Rightarrow> bool" where
  "inside d p \<longleftrightarrow> rooted p = rooted d \<and> strict_prefix (parts d) (parts p)"

definition parent :: "path \<Rightarrow> path" where
  "parent p = p\<lparr> parts := butlast (parts p) \<rparr>"

text \<open>
  The file an external tool writes when it is given an output base and appends the
  extension itself (the OCR engine does).
\<close>

definition add_ext :: "path \<Rightarrow> string \<Rightarrow> path" where
  "add_ext p ext = p\<lparr> parts := butlast (parts p) @ [last (parts p) @ ext] \<rparr>"

section \<open>The world the script runs in\<close>

datatype node = File string | Dir

text \<open>
  The exceptions the script can meet. All are subclasses of \<^verbatim>\<open>Exception\<close> but
  \<^verbatim>\<open>KeyboardInterrupt\<close>, which the operator raises with Ctrl-C.
\<close>

datatype exc =
    EOFError | ValueError | FileNotFoundError | IsADirectoryError | NotADirectoryError
  | KeyboardInterrupt

definition is_Exception :: "exc \<Rightarrow> bool" where
  "is_Exception x \<longleftrightarrow> x \<noteq> KeyboardInterrupt"

text \<open>
  What the operator does at a prompt once the lines of standard input are used up:
  standard input is at its end, or the operator presses Ctrl-C instead of Enter.
\<close>

datatype ending = Closed | Interrupted

text \<open>
  What the script does that can be observed, in the order it does it: log lines, usage
  errors of the command-line layer, prompts and prints, the temporary directory, files it
  opens for writing itself, the subprocesses it starts (with their argument vector), the
  publishing copy, and what the command-line layer prints when it aborts or when an
  exception reaches the interpreter.
\<close>

datatype event =
    LogError string
  | LogException exc
  | UsageError string
  | Prompt string
  | Print string
  | PrintArgv "string list"
  | MkTemp path
  | RmTemp path
  | OpenWrite path
  | Run "string list"
  | CopyFile path path
  | Aborted
  | Uncaught exc

record world =
  fs :: "path \<rightharpoonup> node"
  stdin :: "string list"
  at_end :: ending
  trace :: "event list"

text \<open>
  What the script cannot decide: which commands the search path resolves, the name
  \<^verbatim>\<open>tempfile\<close> picks for the directory, and what the four external programs
  produce. A tool that fails to produce its output file answers \<open>None\<close>; its exit status
  is never read by the script. Each tool writes its designated output file and nothing
  else.
\<close>

record env =
  which :: "string \<Rightarrow> bool"
  tmpdir :: string
  scanimage_out :: "string list \<Rightarrow> nat \<Rightarrow> string"
  tesseract_out :: "string \<Rightarrow> string option"
  convert_out :: "string \<Rightarrow> string option"
  gs_out :: "string list \<Rightarrow> string option list \<Rightarrow> string option"

text \<open>The parameters of \<^verbatim>\<open>main\<close>, as the command-line layer hands them over.\<close>

record config =
  pages :: int
  output_dir :: string
  filename :: string
  sane_device :: "string option"
  sane_resolution :: int
  sane_contrast :: int
  sane_brightness :: int
  sane_mode :: string
  no_ocr :: bool

definition emit :: "event \<Rightarrow> world \<Rightarrow> world" where
  "emit ev w = w\<lparr> trace := trace w @ [ev] \<rparr>"

definition write_file :: "path \<Rightarrow> string \<Rightarrow> world \<Rightarrow> world" where
  "write_file p content w = w\<lparr> fs := (fs w)(p \<mapsto> File content) \<rparr>"

definition read_file :: "world \<Rightarrow> path \<Rightarrow> string option" where
  "read_file w p = (case fs w p of Some (File content) \<Rightarrow> Some content | _ \<Rightarrow> None)"

text \<open>
  \<^verbatim>\<open>Path.exists\<close> and the directory test. A path with no component is the root or the
  current directory, which are always there.
\<close>

definition exists_py :: "world \<Rightarrow> path \<Rightarrow> bool" where
  "exists_py w p \<longleftrightarrow> parts p = [] \<or> fs w p \<noteq> None"

text \<open>
  \<^verbatim>\<open>input(prompt)\<close>: one line of standard input; when there is none,
  \<^verbatim>\<open>EOFError\<close> at the end of the input and \<^verbatim>\<open>KeyboardInterrupt\<close> when the
  operator interrupts.
\<close>

definition end_exc :: "ending \<Rightarrow> exc" where
  "end_exc a = (case a of Closed \<Rightarrow> EOFError | Interrupted \<Rightarrow> KeyboardInterrupt)"


definition input_py :: "string \<Rightarrow> world \<Rightarrow> (exc + string) \<times> world" where
  "input_py prompt w =
     (case stdin w of
        [] \<Rightarrow> (Inl (end_exc (at_end w)), emit (Prompt prompt) w)
      | l # ls \<Rightarrow> (Inr l, (emit (Prompt prompt) w)\<lparr> stdin := ls \<rparr>))"

text \<open>\<^verbatim>\<open>open(p, "w")\<close> inside the temporary directory: the file is created empty.\<close>

definition open_write :: "path \<Rightarrow> world \<Rightarrow> world" where
  "open_write p w = write_file p [] (emit (OpenWrite p) w)"

text \<open>
  \<^verbatim>\<open>shutil.copyfile\<close>: the source has to be a file, the destination must not be a
  directory and its parent has to be one.
\<close>

definition copyfile :: "path \<Rightarrow> path \<Rightarrow> world \<Rightarrow> (exc + unit) \<times> world" where
  "copyfile src dst w =
     (let w1 = emit (CopyFile src dst) w
      in case fs w src of
           None \<Rightarrow> (Inl FileNotFoundError, w1)
         | Some Dir \<Rightarrow> (Inl IsADirectoryError, w1)
         | Some (File content) \<Rightarrow>
             if fs w dst = Some Dir then (Inl IsADirectoryError, w1)
             else if parts (parent dst) = [] \<or> fs w (parent dst) = Some Dir
               then (Inr (), write_file dst content w1)
             else if fs w (parent dst) = None then (Inl FileNotFoundError, w1)
             else (Inl NotADirectoryError, w1))"

text \<open>\<^verbatim>\<open>tempfile.TemporaryDirectory\<close>: entering creates the directory, leaving removes it with all it holds.\<close>

definition mkdtemp :: "env \<Rightarrow> world \<Rightarrow> path \<times> world" where
  "mkdtemp e w =
     (let d = Path (tmpdir e)
      in (d, (emit (MkTemp d) w)\<lparr> fs := (fs w)(d \<mapsto> Dir) \<rparr>))"

definition cleanup :: "path \<Rightarrow> world \<Rightarrow> world" where
  "cleanup d w =
     (emit (RmTemp d) w)\<lparr> fs := (\<lambda>p. if p = d \<or> inside d p then None else fs w p) \<rparr>"

section \<open>The external programs, as the script starts them\<close>

definition run_scanimage :: "env \<Rightarrow> string list \<Rightarrow> nat \<Rightarrow> path \<Rightarrow> world \<Rightarrow> world" where
  "run_scanimage e argv k out_page w =
     write_file out_page (scanimage_out e argv k) (emit (Run argv) w)"

definition run_tesseract :: "env \<Rightarrow> path \<Rightarrow> path \<Rightarrow> world \<Rightarrow> world" where
  "run_tesseract e page pdf_base w =
     (let w1 = emit (Run [''tesseract'', str_path page, str_path pdf_base, ''pdf'']) w
      in case Option.bind (read_file w page) (tesseract_out e) of
           None \<Rightarrow> w1
         | Some pdf \<Rightarrow> write_file (add_ext pdf_base ''.pdf'') pdf w1)"

definition run_convert :: "env \<Rightarrow> path \<Rightarrow> path \<Rightarrow> world \<Rightarrow> world" where
  "run_convert e page pdf_out w =
     (let w1 = emit (Run [''convert'', str_path page, str_path pdf_out]) w
      in case Option.bind (read_file w page) (convert_out e) of
           None \<Rightarrow> w1
         | Some pdf \<Rightarrow> write_file pdf_out pdf w1)"

definition run_gs :: "env \<Rightarrow> string list \<Rightarrow> string list \<Rightarrow> path \<Rightarrow> path list \<Rightarrow> world \<Rightarrow> world" where
  "run_gs e argv opts out inputs w =
     (let w1 = emit (Run argv) w
      in case gs_out e opts (map (read_file w) inputs) of
           None \<Rightarrow> w1
         | Some pdf \<Rightarrow> write_file out pdf w1)"

section \<open>The script\<close>

definition GS_OPTIONS :: "string list" where
  "GS_OPTIONS =
     [''-sDEVICE=pdfwrite'',
      ''-dCompatibilityLevel=1.4'',
      ''-dPDFSETTINGS=/default'',
      ''-dNOPAUSE'',
      ''-dQUIET'',
      ''-dBATCH'',
      ''-dDetectDuplicateImages'',
      ''-dCompressFonts=true'',
      ''-r150'']"

text \<open>
  \<^verbatim>\<open>look_for_required_commands\<close>: one error line for each command that is not found,
  then \<^verbatim>\<open>sys.exit(1)\<close> if there was one. The result is the exit status when the process
  is ended, \<open>None\<close> when the function returns.
\<close>

definition look_for_required_commands :: "env \<Rightarrow> world \<Rightarrow> nat option \<times> world" where
  "look_for_required_commands e w =
     (let fail = False;
          (fail, w) = (if \<not> which e ''convert''
                       then (True, emit (LogError ''ImageMagick command convert is not installed'') w)
                       else (fail, w));
          (fail, w) = (if \<not> which e ''tesseract''
                       then (True, emit (LogError ''Tesseract is not installed'') w)
                       else (fail, w));
          (fail, w) = (if \<not> which e ''scanimage''
                       then (True, emit (LogError ''Sane is not installed'') w)
                       else (fail, w));
          (fail, w) = (if \<not> which e ''gs''
                       then (True, emit (LogError ''Ghostscript is not installed'') w)
                       else (fail, w))
      in if fail then (Some 1, w) else (None, w))"

definition scanimage_argv :: "config \<Rightarrow> string list" where
  "scanimage_argv c =
     [''scanimage'',
      ''-d'', fmt_optional (sane_device c),
      ''--resolution'', str_int (sane_resolution c),
      ''--brightness'', str_int (sane_brightness c),
      ''--contrast'', str_int (sane_contrast c),
      ''--mode'', sane_mode c,
      ''--format'', ''tiff'']"

text \<open>The first loop of \<^verbatim>\<open>main\<close>: scan each page into the temporary directory.\<close>

fun capture :: "env \<Rightarrow> config \<Rightarrow> path \<Rightarrow> nat list \<Rightarrow> path list \<Rightarrow> world \<Rightarrow> (exc + path list) \<times> world" where
  "capture e c tempdir [] page_list w = (Inr page_list, w)"
| "capture e c tempdir (page # rest) page_list w =
     (let tpage = page + 1
      in case input_py (''Press Enter to scan page '' @ str_nat tpage) w of
           (Inl x, w1) \<Rightarrow> (Inl x, w1)
         | (Inr _, w1) \<Rightarrow>
             let page_name = Path (''page_'' @ str_nat page @ ''.tiff'');
                 page_path = joinpath tempdir page_name;
                 w2 = open_write page_path w1;
                 w3 = run_scanimage e (scanimage_argv c) page page_path w2;
                 w4 = emit (Print (CHR 0x09 # ''Done!'')) w3
             in capture e c tempdir rest (page_list @ [page_path]) w4)"

text \<open>The second loop: one PDF for each scanned page, by the OCR engine or the plain converter.\<close>

fun convert_pages :: "env \<Rightarrow> config \<Rightarrow> path list \<Rightarrow> path list \<Rightarrow> world \<Rightarrow> (exc + path list) \<times> world" where
  "convert_pages e c [] pdf_list w = (Inr pdf_list, w)"
| "convert_pages e c (page # rest) pdf_list w =
     (case with_suffix page [] of
        None \<Rightarrow> (Inl ValueError, w)
      | Some pdf_base \<Rightarrow>
          (case with_suffix page ''.pdf'' of
             None \<Rightarrow> (Inl ValueError, w)
           | Some pdf_out \<Rightarrow>
               let w1 = (if \<not> no_ocr c then run_tesseract e page pdf_base w
                         else run_convert e page pdf_out w)
               in convert_pages e c rest (pdf_list @ [pdf_out]) w1))"

text \<open>Combining the PDFs: the only page as it is, or the compositor on all of them.\<close>

definition assemble :: "env \<Rightarrow> path \<Rightarrow> path list \<Rightarrow> world \<Rightarrow> path \<times> world" where
  "assemble e tempdir pdf_list w =
     (if length pdf_list = 1 then (hd pdf_list, w)
      else let final_pdf = joinpath tempdir (Path ''final.pdf'');
               gs_commands = [''gs''] @ GS_OPTIONS @ [''-sOutputFile='' @ str_path final_pdf]
                               @ map str_path pdf_list;
               w1 = emit (PrintArgv gs_commands) w;
               w2 = run_gs e gs_commands GS_OPTIONS final_pdf pdf_list w1
           in (final_pdf, w2))"

text \<open>The body of the \<^verbatim>\<open>with\<close> block.\<close>

definition pipeline :: "env \<Rightarrow> config \<Rightarrow> path \<Rightarrow> path \<Rightarrow> world \<Rightarrow> (exc + unit) \<times> world" where
  "pipeline e c tempdir final_output w =
     (case capture e c tempdir (range_py (pages c)) [] w of
        (Inl x, w1) \<Rightarrow> (Inl x, w1)
      | (Inr page_list, w1) \<Rightarrow>
          (case convert_pages e c page_list [] w1 of
             (Inl x, w2) \<Rightarrow> (Inl x, w2)
           | (Inr pdf_list, w2) \<Rightarrow>
               (case assemble e tempdir pdf_list w2 of
                  (final_pdf, w3) \<Rightarrow> copyfile final_pdf final_output w3)))"

definition normalize_filename :: "string \<Rightarrow> string" where
  "normalize_filename name = (if \<not> endswith name ''.pdf'' then name @ ''.pdf'' else name)"

definition final_output_of :: "config \<Rightarrow> path" where
  "final_output_of c = joinpath (Path (output_dir c)) (Path (normalize_filename (filename c)))"

definition main :: "env \<Rightarrow> config \<Rightarrow> world \<Rightarrow> (exc + unit) \<times> world" where
  "main e c w =
     (let final_output = final_output_of c
      in if exists_py w final_output
         then (Inr (), emit (LogError (''Output pdf '' @ str_path final_output @ '' already exists'')) w)
         else (case mkdtemp e w of
                 (tempdir, w1) \<Rightarrow>
                   (case pipeline e c tempdir final_output w1 of
                      (r, w2) \<Rightarrow> (r, cleanup tempdir w2))))"

text \<open>
  The decorator \<^verbatim>\<open>logger.catch\<close> with its defaults: an exception of the function
  that is a subclass of \<^verbatim>\<open>Exception\<close> is logged and swallowed, and the decorated
  function returns normally; any other exception passes through.
\<close>

definition logger_catch ::
  "(world \<Rightarrow> (exc + unit) \<times> world) \<Rightarrow> world \<Rightarrow> (exc + unit) \<times> world" where
  "logger_catch f w =
     (case f w of
        (Inl x, w') \<Rightarrow>
          if is_Exception x then (Inr (), emit (LogException x) w') else (Inl x, w')
      | (Inr u, w') \<Rightarrow> (Inr u, w'))"

text \<open>
  The command-line layer: the output directory is checked to exist (a usage error, exit
  status 2, if not), the page count is converted to an integer and not checked further,
  and the decorated \<^verbatim>\<open>main\<close> is called. When it returns the process ends with
  status 0. \<^verbatim>\<open>EOFError\<close> and \<^verbatim>\<open>KeyboardInterrupt\<close> that reach this layer make
  it print \<^verbatim>\<open>Aborted!\<close> and end with status 1; any other exception ends the
  interpreter with a traceback and status 1.
\<close>

definition cli :: "env \<Rightarrow> config \<Rightarrow> world \<Rightarrow> nat \<times> world" where
  "cli e c w =
     (if \<not> exists_py w (Path (output_dir c))
      then (2, emit (UsageError (output_dir c)) w)
      else (case logger_catch (main e c) w of
              (Inr u, w') \<Rightarrow> (0, w')
            | (Inl x, w') \<Rightarrow>
                (1, emit (if x = EOFError \<or> x = KeyboardInterrupt then Aborted else Uncaught x) w')))"

text \<open>The script from its first line: the check of the commands runs before the command line is read.\<close>

definition script :: "env \<Rightarrow> config \<Rightarrow> world \<Rightarrow> nat \<times> world" where
  "script e c w =
     (case look_for_required_commands e w of
        (Some status, w1) \<Rightarrow> (status, w1)
      | (None, w1) \<Rightarrow> cli e c w1)"

section \<open>Observations on a run\<close>

text \<open>The argument vectors of the subprocesses of one program, in the order they were started.\<close>

fun runs_of :: "string \<Rightarrow> event list \<Rightarrow> string list list" where
  "runs_of prog [] = []"
| "runs_of prog (Run argv # evs) =
     (if take 1 argv = [prog] then argv # runs_of prog evs else runs_of prog evs)"
| "runs_of prog (ev # evs) = runs_of prog evs"

text \<open>The prompts the operator was shown, in order.\<close>

fun prompts_of :: "event list \<Rightarrow> string list" where
  "prompts_of [] = []"
| "prompts_of (Prompt m # evs) = m # prompts_of evs"
| "prompts_of (ev # evs) = prompts_of evs"

text \<open>The paths the script itself writes to: the files it opens for writing and the target of a copy.\<close>

fun written_paths :: "event list \<Rightarrow> path list" where
  "written_paths [] = []"
| "written_paths (OpenWrite p # evs) = p # written_paths evs"
| "written_paths (CopyFile src dst # evs) = dst # written_paths evs"
| "written_paths (ev # evs) = written_paths evs"

text \<open>The entry \<open>name\<close> of the directory \<open>d\<close>.\<close>

definition child :: "path \<Rightarrow> string \<Rightarrow> path" where
  "child d name = \<lparr> rooted = rooted d, parts = parts d @ [name] \<rparr>"

text \<open>
  What the layers above \<^verbatim>\<open>main\<close> add to the trace, and the exit status they give,
  for a result of \<^verbatim>\<open>main\<close>.
\<close>

definition top_events :: "exc + unit \<Rightarrow> event list" where
  "top_events r =
     (case r of Inr u \<Rightarrow> [] | Inl x \<Rightarrow> [if is_Exception x then LogException x else Aborted])"

definition exit_status :: "exc + unit \<Rightarrow> nat" where
  "exit_status r = (case r of Inr u \<Rightarrow> 0 | Inl x \<Rightarrow> if is_Exception x then 0 else 1)"

text \<open>The tool that makes the PDF of a page, by the flag \<^verbatim>\<open>--no-ocr\<close>.\<close>

definition converter :: "env \<Rightarrow> config \<Rightarrow> string \<Rightarrow> string option" where
  "converter e c = (if no_ocr c then convert_out e else tesseract_out e)"

text \<open>The files of page \<open>i\<close> in the temporary directory \<open>d\<close>.\<close>

definition page_raster :: "path \<Rightarrow> nat \<Rightarrow> path" where
  "page_raster d i = child d (''page_'' @ str_nat i @ ''.tiff'')"

definition page_base :: "path \<Rightarrow> nat \<Rightarrow> path" where
  "page_base d i = child d (''page_'' @ str_nat i)"

definition page_pdf :: "path \<Rightarrow> nat \<Rightarrow> path" where
  "page_pdf d i = child d (''page_'' @ str_nat i @ ''.pdf'')"

text \<open>What scanning page \<open>i\<close> and converting page \<open>i\<close> add to the trace.\<close>

definition scan_events :: "config \<Rightarrow> path \<Rightarrow> nat \<Rightarrow> event list" where
  "scan_events c d i =
     [Prompt (''Press Enter to scan page '' @ str_nat (i + 1)),
      OpenWrite (page_raster d i),
      Run (scanimage_argv c),
      Print (CHR 0x09 # ''Done!'')]"

definition convert_event :: "config \<Rightarrow> path \<Rightarrow> nat \<Rightarrow> event" where
  "convert_event c d i =
     (if \<not> no_ocr c
      then Run [''tesseract'', str_path (page_raster d i), str_path (page_base d i), ''pdf'']
      else Run [''convert'', str_path (page_raster d i), str_path (page_pdf d i)])"

text \<open>The value of a decimal digit and of a string of them, to read a rendered number back.\<close>

definition digit_val :: "char \<Rightarrow> nat" where
  "digit_val ch = of_char ch - 48"

text \<open>One round of the second loop, on the raster of page \<open>i\<close>.\<close>

definition convert_step :: "env \<Rightarrow> config \<Rightarrow> path \<Rightarrow> nat \<Rightarrow> world \<Rightarrow> world" where
  "convert_step e c d i w =
     (if \<not> no_ocr c then run_tesseract e (page_raster d i) (page_base d i) w
      else run_convert e (page_raster d i) (page_pdf d i) w)"

text \<open>The events of the assembly stage for \<open>n\<close> pages, and the file it hands to the copy.\<close>

definition merge_argv :: "path \<Rightarrow> nat \<Rightarrow> string list" where
  "merge_argv d n =
     ''gs'' # GS_OPTIONS @ [''-sOutputFile='' @ str_path (child d ''final.pdf'')]
       @ map (\<lambda>i. str_path (page_pdf d i)) [0..<n]"

definition assemble_events :: "path \<Rightarrow> nat \<Rightarrow> event list" where
  "assemble_events d n = (if n = 1 then [] else [PrintArgv (merge_argv d n), Run (merge_argv d n)])"

definition assembled :: "path \<Rightarrow> nat \<Rightarrow> path" where
  "assembled d n = (if n = 1 then page_pdf d 0 else child d ''final.pdf'')"

text \<open>
  The four commands the script needs, each with the line it logs when the command is not
  found, and those of them that a search path does not resolve.
\<close>

definition required_commands :: "(string \<times> string) list" where
  "required_commands =
     [(''convert'', ''ImageMagick command convert is not installed''),
      (''tesseract'', ''Tesseract is not installed''),
      (''scanimage'', ''Sane is not installed''),
      (''gs'', ''Ghostscript is not installed'')]"

definition missing_commands :: "env \<Rightarrow> (string \<times> string) list" where
  "missing_commands e = filter (\<lambda>(cmd, msg). \<not> which e cmd) required_commands"

text \<open>
  A concrete run to evaluate the script on: every command is found, the tools produce
  recognisable output, two pages are asked for and the operator presses Enter twice.
\<close>

definition demo_env :: env where
  "demo_env =
     \<lparr> which = (\<lambda>cmd. True),
       tmpdir = ''/tmp/tmpab12cd'',
       scanimage_out = (\<lambda>argv k. ''tiff'' @ str_nat k),
       tesseract_out = (\<lambda>raster. Some (''ocr:'' @ raster)),
       convert_out = (\<lambda>raster. Some (''img:'' @ raster)),
       gs_out = (\<lambda>opts inputs. Some (concat (map (\<lambda>x. case x of None \<Rightarrow> [] | Some pdf \<Rightarrow> pdf) inputs))) \<rparr>"

definition demo_config :: config where
  "demo_config =
     \<lparr> pages = 2, output_dir = ''.'', filename = ''report'', sane_device = None,
       sane_resolution = 150, sane_contrast = 0, sane_brightness = 0, sane_mode = ''Color'',
       no_ocr = False \<rparr>"

definition demo_world :: world where
  "demo_world = \<lparr> fs = Map.empty, stdin = [[], []], at_end = Closed, trace = [] \<rparr>"

text \<open>Further concrete inputs: the output file is already there; only one command is found; one page without OCR.\<close>

definition demo_world_existing :: world where
  "demo_world_existing =
     \<lparr> fs = [Path ''report.pdf'' \<mapsto> File ''old''], stdin = [[], []], at_end = Closed,
       trace = [] \<rparr>"

definition demo_env_only_gs :: env where
  "demo_env_only_gs = demo_env\<lparr> which := (\<lambda>cmd. cmd = ''gs'') \<rparr>"

definition demo_config_no_ocr :: config where
  "demo_config_no_ocr = demo_config\<lparr> pages := 1, filename := ''scan.pdf'', no_ocr := True \<rparr>"

text \<open>
  More concrete inputs: standard input is at its end; the operator interrupts at the first
  prompt; the page count is zero; the page count is negative.
\<close>

definition demo_world_eof :: world where
  "demo_world_eof = demo_world\<lparr> stdin := [] \<rparr>"

definition demo_world_interrupt :: world where
  "demo_world_interrupt = demo_world\<lparr> stdin := [], at_end := Interrupted \<rparr>"

definition demo_config_zero :: config where
  "demo_config_zero = demo_config\<lparr> pages := 0 \<rparr>"

definition demo_config_negative :: config where
  "demo_config_negative = demo_config\<lparr> pages := - 3 \<rparr>"

text \<open>The paths outside the directory \<open>d\<close> that the script itself writes to, in order.\<close>

definition outside_writes :: "path \<Rightarrow> event list \<Rightarrow> path list" where
  "outside_writes d evs = filter (\<lambda>p. \<not> inside d p) (written_paths evs)"


section \<open>Basic facts\<close>

lemma trace_emit [simp]: "trace (emit ev w) = trace w @ [ev]"
  and fs_emit [simp]: "fs (emit ev w) = fs w"
  and stdin_emit [simp]: "stdin (emit ev w) = stdin w"
  and at_end_emit [simp]: "at_end (emit ev w) = at_end w"
  by (simp_all add: emit_def)

lemma trace_write_file [simp]: "trace (write_file p s w) = trace w"
  and stdin_write_file [simp]: "stdin (write_file p s w) = stdin w"
  and at_end_write_file [simp]: "at_end (write_file p s w) = at_end w"
  and fs_write_file [simp]: "fs (write_file p s w) = (fs w)(p \<mapsto> File s)"
  by (simp_all add: write_file_def)

lemma runs_of_append [simp]: "runs_of prog (xs @ ys) = runs_of prog xs @ runs_of prog ys"
  by (induction prog xs rule: runs_of.induct) simp_all

lemma written_paths_append [simp]: "written_paths (xs @ ys) = written_paths xs @ written_paths ys"
  by (induction xs rule: written_paths.induct) simp_all

lemma digit_char_in: "d < 10 \<Longrightarrow> digit_char d \<in> set ''0123456789''"
  unfolding digit_char_def by (rule nth_mem) simp

lemma str_nat_digits: "set (str_nat n) \<subseteq> set ''0123456789''"
proof (induction n rule: str_nat.induct)
  case (1 n)
  show ?case
  proof (cases "n < 10")
    case True
    then show ?thesis using digit_char_in [of n] by (subst str_nat.simps) simp
  next
    case False
    have "n mod 10 < 10" by simp
    from digit_char_in [OF this] 1 [OF False] False show ?thesis
      by (subst str_nat.simps) simp
  qed
qed

lemma str_nat_no_slash: "CHR ''/'' \<notin> set (str_nat n)"
  using str_nat_digits [of n] by auto

lemma str_nat_no_dot: "CHR ''.'' \<notin> set (str_nat n)"
  using str_nat_digits [of n] by auto

lemma str_nat_nonempty: "str_nat n \<noteq> []"
  by (subst str_nat.simps) simp

lemma split_slash_nonempty: "split_slash s \<noteq> []"
  by (induction s) (auto split: list.splits)

lemma split_slash_plain: "CHR ''/'' \<notin> set s \<Longrightarrow> split_slash s = [s]"
  by (induction s) (auto split: list.splits)

lemma Path_plain:
  "CHR ''/'' \<notin> set s \<Longrightarrow> s \<noteq> [] \<Longrightarrow> s \<noteq> ''.'' \<Longrightarrow> Path s = \<lparr> rooted = False, parts = [s] \<rparr>"
  by (cases s) (auto simp add: Path_def split_slash_plain)

lemma joinpath_plain:
  "CHR ''/'' \<notin> set s \<Longrightarrow> s \<noteq> [] \<Longrightarrow> s \<noteq> ''.'' \<Longrightarrow> joinpath d (Path s) = child d s"
  by (simp add: Path_plain joinpath_def child_def)

lemma page_tiff: "joinpath d (Path (''page_'' @ str_nat i @ ''.tiff'')) = child d (''page_'' @ str_nat i @ ''.tiff'')"
  by (rule joinpath_plain) (simp_all add: str_nat_no_slash)

lemma final_pdf: "joinpath d (Path ''final.pdf'') = child d ''final.pdf''"
  by (rule joinpath_plain) simp_all

lemma inside_child [simp]: "inside d (child d name)"
  by (simp add: inside_def child_def strict_prefix_def)

lemma child_neq [simp]: "child d name \<noteq> d"
  by (cases d) (simp add: child_def)

lemma rfind_dot_tiff: "rfind CHR ''.'' (s @ ''.tiff'') = int (length s)"
  by (simp add: rfind_def)

lemma suffix_of_tiff: "s \<noteq> [] \<Longrightarrow> suffix_of (s @ ''.tiff'') = ''.tiff''"
  by (simp add: suffix_of_def rfind_dot_tiff Let_def)

lemma with_suffix_tiff:
  "s \<noteq> [] \<Longrightarrow> with_suffix (child d (s @ ''.tiff'')) sfx = Some (child d (s @ sfx))"
  by (simp add: with_suffix_def child_def suffix_of_tiff Let_def)

lemma add_ext_child [simp]: "add_ext (child d s) ext = child d (s @ ext)"
  by (simp add: add_ext_def child_def)

lemma intercalate_snoc:
  "xs \<noteq> [] \<Longrightarrow> intercalate sep (xs @ [x]) = intercalate sep xs @ sep @ x"
  by (induction sep xs rule: intercalate.induct) simp_all

lemma str_path_child:
  "parts d \<noteq> [] \<Longrightarrow> str_path (child d name) = str_path d @ ''/'' @ name"
  by (simp add: str_path_def child_def intercalate_snoc)

lemma inside_not_self [simp]: "\<not> inside d d"
  by (simp add: inside_def)

lemma inside_with_suffix:
  assumes "inside d p" and "with_suffix p sfx = Some q"
  shows "inside d q"
proof -
  from assms(1) obtain zs where zs: "parts p = parts d @ zs" "zs \<noteq> []" and r: "rooted p = rooted d"
    by (auto simp: inside_def strict_prefix_def prefix_def)
  from assms(2) zs obtain name' where q: "q = p\<lparr> parts := butlast (parts p) @ [name'] \<rparr>"
    by (auto simp: with_suffix_def Let_def split: if_splits)
  have "butlast (parts p) = parts d @ butlast zs"
    using zs by (simp add: butlast_append)
  with q r show ?thesis
    by (simp add: inside_def strict_prefix_def)
qed

lemma digit_val_digit_char: "d < 10 \<Longrightarrow> digit_val (digit_char d) = d"
proof -
  assume "d < 10"
  then have "d = 0 \<or> d = 1 \<or> d = 2 \<or> d = 3 \<or> d = 4 \<or> d = 5 \<or> d = 6 \<or> d = 7 \<or> d = 8 \<or> d = 9"
    by arith
  then show ?thesis
    by (elim disjE) (simp_all add: digit_val_def digit_char_def)
qed

lemma str_nat_inverse: "foldl (\<lambda>a ch. 10 * a + digit_val ch) 0 (str_nat n) = n"
proof (induction n rule: str_nat.induct)
  case (1 n)
  show ?case
  proof (cases "n < 10")
    case True
    then show ?thesis
      by (subst str_nat.simps) (simp add: digit_val_digit_char)
  next
    case False
    have "n mod 10 < 10" by simp
    with 1 [OF False] False show ?thesis
      by (subst str_nat.simps) (simp add: digit_val_digit_char)
  qed
qed

lemma str_nat_inj:
  assumes "str_nat m = str_nat n"
  shows "m = n"
proof -
  have "m = foldl (\<lambda>a ch. 10 * a + digit_val ch) 0 (str_nat m)"
    by (simp only: str_nat_inverse)
  also have "\<dots> = foldl (\<lambda>a ch. 10 * a + digit_val ch) 0 (str_nat n)"
    by (simp only: assms)
  also have "\<dots> = n"
    by (rule str_nat_inverse)
  finally show ?thesis .
qed

subsection \<open>The capture loop\<close>

lemma page_raster_join:
  "joinpath d (Path (''page_'' @ str_nat i @ ''.tiff'')) = page_raster d i"
  unfolding page_raster_def by (rule page_tiff)

lemma inside_page [simp]:
  "inside d (page_raster d i)" "inside d (page_base d i)" "inside d (page_pdf d i)"
  by (simp_all add: page_raster_def page_base_def page_pdf_def)

lemma with_suffix_page:
  "with_suffix (page_raster d i) [] = Some (page_base d i)"
  "with_suffix (page_raster d i) ''.pdf'' = Some (page_pdf d i)"
  using with_suffix_tiff [of "''page_'' @ str_nat i" d "[]"]
    with_suffix_tiff [of "''page_'' @ str_nat i" d "''.pdf''"]
  by (simp_all add: page_raster_def page_base_def page_pdf_def)

lemma add_ext_page_base [simp]: "add_ext (page_base d i) ''.pdf'' = page_pdf d i"
  by (simp add: page_base_def page_pdf_def)

lemma capture_Cons_eof:
  "stdin w = [] \<Longrightarrow>
   capture e c d (i # rest) pl w =
     (Inl (end_exc (at_end w)), emit (Prompt (''Press Enter to scan page '' @ str_nat (i + 1))) w)"
  by (simp add: input_py_def)

lemma capture_Cons_line:
  "stdin w = l # ls \<Longrightarrow>
   capture e c d (i # rest) pl w =
     capture e c d rest (pl @ [page_raster d i])
       (emit (Print (CHR 0x09 # ''Done!''))
          (run_scanimage e (scanimage_argv c) i (page_raster d i)
             (open_write (page_raster d i)
                ((emit (Prompt (''Press Enter to scan page '' @ str_nat (i + 1))) w)\<lparr> stdin := ls \<rparr>))))"
  by (simp add: input_py_def page_raster_join [simplified] Let_def)

lemma trace_open_write [simp]: "trace (open_write p w) = trace w @ [OpenWrite p]"
  and stdin_open_write [simp]: "stdin (open_write p w) = stdin w"
  and at_end_open_write [simp]: "at_end (open_write p w) = at_end w"
  and fs_open_write [simp]: "fs (open_write p w) = (fs w)(p \<mapsto> File [])"
  by (simp_all add: open_write_def)

lemma trace_run_scanimage [simp]: "trace (run_scanimage e argv k p w) = trace w @ [Run argv]"
  and stdin_run_scanimage [simp]: "stdin (run_scanimage e argv k p w) = stdin w"
  and at_end_run_scanimage [simp]: "at_end (run_scanimage e argv k p w) = at_end w"
  and fs_run_scanimage [simp]:
    "fs (run_scanimage e argv k p w) = (fs w)(p \<mapsto> File (scanimage_out e argv k))"
  by (simp_all add: run_scanimage_def)

lemma capture_result:
  "length ps \<le> length (stdin w) \<Longrightarrow>
   fst (capture e c d ps pl w) = Inr (pl @ map (page_raster d) ps)"
proof (induction ps arbitrary: pl w)
  case Nil
  then show ?case by simp
next
  case (Cons i ps)
  then obtain l ls where l: "stdin w = l # ls"
    by (cases "stdin w") auto
  with Cons.prems show ?case
    by (simp only: capture_Cons_line [OF l]) (simp add: Cons.IH)
qed

lemma capture_trace:
  "length ps \<le> length (stdin w) \<Longrightarrow>
   trace (snd (capture e c d ps pl w)) = trace w @ concat (map (scan_events c d) ps)"
proof (induction ps arbitrary: pl w)
  case Nil
  then show ?case by simp
next
  case (Cons i ps)
  then obtain l ls where l: "stdin w = l # ls"
    by (cases "stdin w") auto
  with Cons.prems show ?case
    by (simp only: capture_Cons_line [OF l]) (simp add: Cons.IH scan_events_def)
qed

lemma capture_eof:
  "length (stdin w) < length ps \<Longrightarrow> fst (capture e c d ps pl w) = Inl (end_exc (at_end w))"
proof (induction ps arbitrary: pl w)
  case Nil
  then show ?case by simp
next
  case (Cons i ps)
  show ?case
  proof (cases "stdin w")
    case Nil
    then show ?thesis by (simp only: capture_Cons_eof) simp
  next
    case (Cons l ls)
    with Cons.prems show ?thesis
      by (simp only: capture_Cons_line [OF Cons]) (simp add: Cons.IH)
  qed
qed

lemma capture_frame:
  "\<not> inside d p \<Longrightarrow> fs (snd (capture e c d ps pl w)) p = fs w p"
proof (induction ps arbitrary: pl w)
  case Nil
  then show ?case by simp
next
  case (Cons i ps)
  from Cons.prems have ne: "p \<noteq> page_raster d i"
    using inside_page(1) [of d i] by auto
  show ?case
  proof (cases "stdin w")
    case Nil
    then show ?thesis by (simp only: capture_Cons_eof) simp
  next
    case (Cons l ls)
    show ?thesis
      using ne by (simp only: capture_Cons_line [OF Cons]) (simp add: Cons.IH [OF Cons.prems])
  qed
qed

subsection \<open>The conversion loop and the assembly\<close>

lemma trace_run_tesseract [simp]:
  "trace (run_tesseract e page pdf_base w) =
     trace w @ [Run [''tesseract'', str_path page, str_path pdf_base, ''pdf'']]"
  and stdin_run_tesseract [simp]: "stdin (run_tesseract e page pdf_base w) = stdin w"
  by (simp_all add: run_tesseract_def Let_def split: option.splits)

lemma trace_run_convert [simp]:
  "trace (run_convert e page pdf_out w) = trace w @ [Run [''convert'', str_path page, str_path pdf_out]]"
  and stdin_run_convert [simp]: "stdin (run_convert e page pdf_out w) = stdin w"
  by (simp_all add: run_convert_def Let_def split: option.splits)

lemma fs_run_tesseract:
  "fs (run_tesseract e page pdf_base w) =
     (case Option.bind (read_file w page) (tesseract_out e) of
        None \<Rightarrow> fs w
      | Some pdf \<Rightarrow> (fs w)(add_ext pdf_base ''.pdf'' \<mapsto> File pdf))"
  by (simp add: run_tesseract_def Let_def read_file_def emit_def split: option.splits)

lemma fs_run_convert:
  "fs (run_convert e page pdf_out w) =
     (case Option.bind (read_file w page) (convert_out e) of
        None \<Rightarrow> fs w
      | Some pdf \<Rightarrow> (fs w)(pdf_out \<mapsto> File pdf))"
  by (simp add: run_convert_def Let_def read_file_def emit_def split: option.splits)

lemma convert_pages_Cons:
  "convert_pages e c (page_raster d i # rest) pl w =
     convert_pages e c rest (pl @ [page_pdf d i]) (convert_step e c d i w)"
  by (simp add: with_suffix_page convert_step_def)

lemma trace_convert_step [simp]:
  "trace (convert_step e c d i w) = trace w @ [convert_event c d i]"
  by (simp add: convert_step_def convert_event_def)

lemma fs_convert_step:
  "fs (convert_step e c d i w) =
     (case Option.bind (read_file w (page_raster d i)) (converter e c) of
        None \<Rightarrow> fs w
      | Some pdf \<Rightarrow> (fs w)(page_pdf d i \<mapsto> File pdf))"
  by (simp add: convert_step_def converter_def fs_run_tesseract fs_run_convert split: option.splits)

lemma convert_step_frame:
  "\<not> inside d p \<Longrightarrow> fs (convert_step e c d i w) p = fs w p"
  using inside_page(3) [of d i] by (auto simp: fs_convert_step split: option.splits)

lemma convert_pages_result:
  "fst (convert_pages e c (map (page_raster d) ps) pl w) = Inr (pl @ map (page_pdf d) ps)"
  by (induction ps arbitrary: pl w) (simp_all add: convert_pages_Cons del: convert_pages.simps(2))

lemma convert_pages_trace:
  "trace (snd (convert_pages e c (map (page_raster d) ps) pl w)) =
     trace w @ map (convert_event c d) ps"
  by (induction ps arbitrary: pl w) (simp_all add: convert_pages_Cons del: convert_pages.simps(2))

lemma convert_pages_frame:
  "\<not> inside d p \<Longrightarrow> fs (snd (convert_pages e c (map (page_raster d) ps) pl w)) p = fs w p"
  by (induction ps arbitrary: pl w) (simp_all add: convert_pages_Cons convert_step_frame del: convert_pages.simps(2))

lemma final_pdf_join: "joinpath d (Path ''final.pdf'') = child d ''final.pdf''"
  by (rule final_pdf)

lemma assemble_single: "assemble e d [x] w = (x, w)"
  by (simp add: assemble_def)

lemma trace_run_gs [simp]: "trace (run_gs e argv opts out inputs w) = trace w @ [Run argv]"
  and stdin_run_gs [simp]: "stdin (run_gs e argv opts out inputs w) = stdin w"
  by (simp_all add: run_gs_def Let_def split: option.splits)

lemma fs_run_gs:
  "fs (run_gs e argv opts out inputs w) =
     (case gs_out e opts (map (read_file w) inputs) of
        None \<Rightarrow> fs w
      | Some pdf \<Rightarrow> (fs w)(out \<mapsto> File pdf))"
  by (simp add: run_gs_def Let_def split: option.splits)

lemma read_file_emit [simp]: "read_file (emit ev w) = read_file w"
  by (rule ext) (simp add: read_file_def)

lemma assemble_many:
  "length xs \<noteq> 1 \<Longrightarrow>
   assemble e d xs w =
     (child d ''final.pdf'',
      run_gs e (''gs'' # GS_OPTIONS @ [''-sOutputFile='' @ str_path (child d ''final.pdf'')] @ map str_path xs)
        GS_OPTIONS (child d ''final.pdf'') xs
        (emit (PrintArgv (''gs'' # GS_OPTIONS @ [''-sOutputFile='' @ str_path (child d ''final.pdf'')] @ map str_path xs)) w))"
  by (simp add: assemble_def final_pdf_join [simplified] Let_def)

lemma assemble_frame:
  "\<not> inside d p \<Longrightarrow> fs (snd (assemble e d xs w)) p = fs w p"
  by (cases "length xs = 1") (auto simp: assemble_def Let_def fs_run_gs final_pdf_join [simplified] split: option.splits)

subsection \<open>The pipeline and \<^verbatim>\<open>main\<close>\<close>

lemma trace_copyfile [simp]: "trace (snd (copyfile src dst w)) = trace w @ [CopyFile src dst]"
  and stdin_copyfile [simp]: "stdin (snd (copyfile src dst w)) = stdin w"
  by (simp_all add: copyfile_def Let_def split: option.splits node.splits)

lemma copyfile_frame: "p \<noteq> dst \<Longrightarrow> fs (snd (copyfile src dst w)) p = fs w p"
  by (simp add: copyfile_def Let_def split: option.splits node.splits)

lemma copyfile_ok:
  "fs w src = Some (File content) \<Longrightarrow> fs w dst \<noteq> Some Dir \<Longrightarrow>
   parts (parent dst) = [] \<or> fs w (parent dst) = Some Dir \<Longrightarrow>
   copyfile src dst w = (Inr (), write_file dst content (emit (CopyFile src dst) w))"
  by (auto simp add: copyfile_def Let_def)

lemma copyfile_done:
  "fst (copyfile src dst w) = Inr () \<Longrightarrow>
   \<exists>content. fs w src = Some (File content) \<and> fs (snd (copyfile src dst w)) dst = Some (File content)"
  by (auto simp add: copyfile_def Let_def split: option.splits node.splits if_splits)

lemma mkdtemp_eq:
  "mkdtemp e w = (Path (tmpdir e), (emit (MkTemp (Path (tmpdir e))) w)\<lparr> fs := (fs w)(Path (tmpdir e) \<mapsto> Dir) \<rparr>)"
  by (simp add: mkdtemp_def Let_def)

lemma trace_cleanup [simp]: "trace (cleanup d w) = trace w @ [RmTemp d]"
  and stdin_cleanup [simp]: "stdin (cleanup d w) = stdin w"
  and fs_cleanup: "fs (cleanup d w) p = (if p = d \<or> inside d p then None else fs w p)"
  by (simp_all add: cleanup_def)

lemma assemble_pages_fst:
  "fst (assemble e d (map (page_pdf d) [0..<n]) w) = assembled d n"
proof (cases "n = 1")
  case True
  then show ?thesis by (simp add: assemble_def assembled_def)
next
  case False
  then have "length (map (page_pdf d) [0..<n]) \<noteq> 1" by simp
  from assemble_many [OF this] False show ?thesis by (simp add: assembled_def)
qed

lemma assemble_pages_trace:
  "trace (snd (assemble e d (map (page_pdf d) [0..<n]) w)) = trace w @ assemble_events d n"
proof (cases "n = 1")
  case True
  then show ?thesis by (simp add: assemble_def assemble_events_def)
next
  case False
  then have "length (map (page_pdf d) [0..<n]) \<noteq> 1" by simp
  from assemble_many [OF this] False show ?thesis
    by (simp add: assemble_events_def merge_argv_def comp_def)
qed

lemma pipeline_eof:
  assumes "length (stdin w) < nat (pages c)"
  shows "pipeline e c d final w =
     (Inl (end_exc (at_end w)), snd (capture e c d (range_py (pages c)) [] w))"
proof -
  have "fst (capture e c d (range_py (pages c)) [] w) = Inl (end_exc (at_end w))"
    using assms by (intro capture_eof) (simp add: range_py_def)
  then show ?thesis
    by (simp add: pipeline_def split_beta)
qed

lemma pipeline_run:
  assumes "nat (pages c) \<le> length (stdin w)"
  shows "pipeline e c d final w =
     copyfile (assembled d (nat (pages c))) final
       (snd (assemble e d (map (page_pdf d) [0..<nat (pages c)])
          (snd (convert_pages e c (map (page_raster d) [0..<nat (pages c)]) []
             (snd (capture e c d [0..<nat (pages c)] [] w))))))"
proof -
  let ?n = "nat (pages c)"
  have 1: "fst (capture e c d [0..<?n] [] w) = Inr (map (page_raster d) [0..<?n])"
    using assms capture_result [of "[0..<?n]" w e c d "[]"] by simp
  have 2: "fst (convert_pages e c (map (page_raster d) [0..<?n]) [] w') = Inr (map (page_pdf d) [0..<?n])" for w'
    using convert_pages_result [of e c d "[0..<?n]" "[]" w'] by simp
  show ?thesis
    by (simp add: pipeline_def range_py_def split_beta 1 2 assemble_pages_fst)
qed

lemma pipeline_trace:
  assumes "nat (pages c) \<le> length (stdin w)"
  shows "trace (snd (pipeline e c d final w)) =
     trace w @ concat (map (scan_events c d) [0..<nat (pages c)])
       @ map (convert_event c d) [0..<nat (pages c)]
       @ assemble_events d (nat (pages c))
       @ [CopyFile (assembled d (nat (pages c))) final]"
  using assms
  by (simp add: pipeline_run capture_trace convert_pages_trace assemble_pages_trace)

lemma pipeline_frame:
  assumes "\<not> inside d p" and "p \<noteq> final"
  shows "fs (snd (pipeline e c d final w)) p = fs w p"
proof (cases "nat (pages c) \<le> length (stdin w)")
  case True
  then show ?thesis
    using assms
    by (simp add: pipeline_run copyfile_frame assemble_frame convert_pages_frame capture_frame)
next
  case False
  then have "length (stdin w) < nat (pages c)" by simp
  then show ?thesis
    using assms by (simp add: pipeline_eof capture_frame)
qed

lemma main_guard:
  "exists_py w (final_output_of c) \<Longrightarrow>
   main e c w =
     (Inr (), emit (LogError (''Output pdf '' @ str_path (final_output_of c) @ '' already exists'')) w)"
  by (simp add: main_def Let_def)

lemma main_run:
  "\<not> exists_py w (final_output_of c) \<Longrightarrow>
   main e c w =
     (fst (pipeline e c (Path (tmpdir e)) (final_output_of c)
             ((emit (MkTemp (Path (tmpdir e))) w)\<lparr> fs := (fs w)(Path (tmpdir e) \<mapsto> Dir) \<rparr>)),
      cleanup (Path (tmpdir e))
        (snd (pipeline e c (Path (tmpdir e)) (final_output_of c)
             ((emit (MkTemp (Path (tmpdir e))) w)\<lparr> fs := (fs w)(Path (tmpdir e) \<mapsto> Dir) \<rparr>))))"
  by (simp add: main_def Let_def mkdtemp_eq split: prod.splits)

lemma main_trace:
  assumes "\<not> exists_py w (final_output_of c)" and "nat (pages c) \<le> length (stdin w)"
  shows "trace (snd (main e c w)) =
     trace w @ [MkTemp (Path (tmpdir e))]
       @ concat (map (scan_events c (Path (tmpdir e))) [0..<nat (pages c)])
       @ map (convert_event c (Path (tmpdir e))) [0..<nat (pages c)]
       @ assemble_events (Path (tmpdir e)) (nat (pages c))
       @ [CopyFile (assembled (Path (tmpdir e)) (nat (pages c))) (final_output_of c),
          RmTemp (Path (tmpdir e))]"
  using assms by (simp add: main_run pipeline_trace)

lemma main_frame:
  assumes fresh: "\<And>q. q = Path (tmpdir e) \<or> inside (Path (tmpdir e)) q \<Longrightarrow> fs w q = None"
    and "p \<noteq> final_output_of c"
  shows "fs (snd (main e c w)) p = fs w p"
proof (cases "exists_py w (final_output_of c)")
  case True
  then show ?thesis by (simp add: main_guard)
next
  case False
  show ?thesis
  proof (cases "p = Path (tmpdir e) \<or> inside (Path (tmpdir e)) p")
    case True
    with fresh [OF True] False show ?thesis
      by (simp add: main_run fs_cleanup)
  next
    case outside: False
    with False assms(2) show ?thesis
      by (simp add: main_run fs_cleanup pipeline_frame)
  qed
qed

subsection \<open>Traces of whole runs\<close>

lemma capture_trace_any:
  "trace (snd (capture e c d ps pl w)) =
     trace w @ concat (map (scan_events c d) (take (length (stdin w)) ps))
       @ (if length (stdin w) < length ps
          then [Prompt (''Press Enter to scan page '' @ str_nat (ps ! length (stdin w) + 1))]
          else [])"
proof (induction ps arbitrary: pl w)
  case Nil
  then show ?case by simp
next
  case (Cons i ps)
  show ?case
  proof (cases "stdin w")
    case Nil
    then show ?thesis by (simp only: capture_Cons_eof) simp
  next
    case (Cons l ls)
    show ?thesis
      by (simp only: capture_Cons_line [OF Cons]) (simp add: Cons Cons.IH scan_events_def)
  qed
qed

lemma main_trace_eof:
  assumes "\<not> exists_py w (final_output_of c)" and "length (stdin w) < nat (pages c)"
  shows "trace (snd (main e c w)) =
     trace w @ [MkTemp (Path (tmpdir e))]
       @ concat (map (scan_events c (Path (tmpdir e))) [0..<length (stdin w)])
       @ [Prompt (''Press Enter to scan page '' @ str_nat (length (stdin w) + 1)),
          RmTemp (Path (tmpdir e))]"
  using assms
  by (simp add: main_run pipeline_eof capture_trace_any range_py_def)

lemma main_eof:
  assumes "\<not> exists_py w (final_output_of c)" and "length (stdin w) < nat (pages c)"
  shows "fst (main e c w) = Inl (end_exc (at_end w))"
  using assms by (simp add: main_run pipeline_eof)

lemma runs_of_scan_events:
  "runs_of prog (concat (map (scan_events c d) ps)) =
     (if prog = ''scanimage'' then replicate (length ps) (scanimage_argv c) else [])"
  by (induction ps) (auto simp add: scan_events_def scanimage_argv_def)

lemma runs_of_convert_events:
  "runs_of prog (map (convert_event c d) ps) =
     (if \<not> no_ocr c \<and> prog = ''tesseract''
      then map (\<lambda>i. [''tesseract'', str_path (page_raster d i), str_path (page_base d i), ''pdf'']) ps
      else if no_ocr c \<and> prog = ''convert''
      then map (\<lambda>i. [''convert'', str_path (page_raster d i), str_path (page_pdf d i)]) ps
      else [])"
  by (induction ps) (auto simp add: convert_event_def)

lemma runs_of_assemble_events:
  "runs_of prog (assemble_events d n) = (if n \<noteq> 1 \<and> prog = ''gs'' then [merge_argv d n] else [])"
  by (auto simp add: assemble_events_def merge_argv_def)

lemma child_inj: "child d a = child d b \<Longrightarrow> a = b"
  by (simp add: child_def)

lemma page_pdf_inj: "page_pdf d i = page_pdf d j \<Longrightarrow> i = j"
  by (auto simp add: page_pdf_def dest!: child_inj str_nat_inj)

lemma distinct_page_pdfs: "distinct (map (page_pdf d) [0..<n])"
  by (auto simp add: distinct_map inj_on_def dest: page_pdf_inj)

lemma intercalate_snoc_inj:
  "intercalate sep (xs @ [a]) = intercalate sep (xs @ [b]) \<Longrightarrow> a = b"
  by (cases "xs = []") (simp_all add: intercalate_snoc)

lemma str_path_child_inj: "str_path (child d a) = str_path (child d b) \<Longrightarrow> a = b"
  by (auto simp add: str_path_def child_def split: if_splits dest: intercalate_snoc_inj)

lemma distinct_page_pdf_args: "distinct (map (\<lambda>i. str_path (page_pdf d i)) [0..<n])"
  by (auto simp add: distinct_map inj_on_def page_pdf_def dest!: str_path_child_inj str_nat_inj)

subsection \<open>The concrete runs\<close>

lemma str_nat_small: "str_nat 0 = ''0''" "str_nat (Suc 0) = ''1''" "str_nat 1 = ''1''" "str_nat 2 = ''2''"
  by (simp_all add: str_nat.simps digit_char_def)

lemma demo_final: "final_output_of demo_config = Path ''report.pdf''"
  by (simp add: final_output_of_def demo_config_def normalize_filename_def endswith_def
      Path_def joinpath_def)

lemma demo_guard: "\<not> exists_py demo_world (final_output_of demo_config)"
  by (simp add: demo_final exists_py_def demo_world_def Path_def)

lemma demo_tmp: "Path (tmpdir demo_env) = \<lparr> rooted = True, parts = [''tmp'', ''tmpab12cd''] \<rparr>"
  by (simp add: demo_env_def Path_def)

lemma demo_paths:
  "str_path (child (Path (tmpdir demo_env)) name) = ''/tmp/tmpab12cd/'' @ name"
  by (simp add: demo_tmp child_def str_path_def)

lemma demo_no_ocr_final: "final_output_of demo_config_no_ocr = Path ''scan.pdf''"
  by (simp add: final_output_of_def demo_config_no_ocr_def demo_config_def normalize_filename_def
      endswith_def Path_def joinpath_def)

lemma demo_no_ocr_guard: "\<not> exists_py demo_world (final_output_of demo_config_no_ocr)"
  by (simp add: demo_no_ocr_final exists_py_def demo_world_def Path_def)

subsection \<open>The script as a whole\<close>

lemma preflight_ok: "missing_commands e = [] \<Longrightarrow> look_for_required_commands e w = (None, w)"
  by (simp add: look_for_required_commands_def missing_commands_def required_commands_def
      Let_def split: if_splits)

lemma is_Exception_simps [simp]:
  "is_Exception EOFError" "is_Exception ValueError" "is_Exception FileNotFoundError"
  "is_Exception IsADirectoryError" "is_Exception NotADirectoryError"
  "\<not> is_Exception KeyboardInterrupt"
  by (simp_all add: is_Exception_def)

lemma top_events_simps [simp]:
  "top_events (Inr u) = []"
  "is_Exception x \<Longrightarrow> top_events (Inl x) = [LogException x]"
  "top_events (Inl KeyboardInterrupt) = [Aborted]"
  by (simp_all add: top_events_def)

lemma exit_status_simps [simp]:
  "exit_status (Inr u) = 0"
  "is_Exception x \<Longrightarrow> exit_status (Inl x) = 0"
  "exit_status (Inl KeyboardInterrupt) = 1"
  by (simp_all add: exit_status_def)

lemma runs_of_top_events [simp]: "runs_of prog (top_events r) = []"
  by (cases r) (simp_all add: top_events_def)

lemma copyfile_raises: "fst (copyfile src dst w) = Inl x \<Longrightarrow> is_Exception x"
  by (auto simp add: copyfile_def Let_def split: option.splits node.splits if_splits)

lemma script_run:
  "missing_commands e = [] \<Longrightarrow> exists_py w (Path (output_dir c)) \<Longrightarrow>
   script e c w =
     (exit_status (fst (main e c w)),
      (snd (main e c w))\<lparr> trace := trace (snd (main e c w)) @ top_events (fst (main e c w)) \<rparr>)"
  by (cases "main e c w")
    (auto simp add: script_def preflight_ok cli_def logger_catch_def top_events_def
      exit_status_def emit_def is_Exception_def split: sum.splits)

lemma main_answered_status:
  assumes "nat (pages c) \<le> length (stdin w)"
  shows "exit_status (fst (main e c w)) = 0"
proof (cases "exists_py w (final_output_of c)")
  case True
  then show ?thesis by (simp add: main_guard)
next
  case False
  have s: "nat (pages c) \<le> length (stdin ((emit (MkTemp (Path (tmpdir e))) w)\<lparr> fs := (fs w)(Path (tmpdir e) \<mapsto> Dir) \<rparr>))"
    using assms by simp
  show ?thesis
    using copyfile_raises
    by (auto simp add: main_run [OF False] pipeline_run [OF s] exit_status_def split: sum.splits)
qed

lemma main_raises_guard: "fst (main e c w) = Inl x \<Longrightarrow> \<not> exists_py w (final_output_of c)"
  by (auto simp add: main_guard)

lemma demo_missing: "missing_commands demo_env = []"
  by (simp add: missing_commands_def required_commands_def demo_env_def)

lemma demo_dir: "exists_py v (Path (output_dir demo_config))"
  by (simp add: exists_py_def demo_config_def Path_def)

lemma demo_eof_guard: "\<not> exists_py demo_world_eof (final_output_of demo_config)"
  by (simp add: demo_final exists_py_def demo_world_eof_def demo_world_def Path_def)

lemma demo_eof_raises: "fst (main demo_env demo_config demo_world_eof) = Inl EOFError"
  using main_eof [OF demo_eof_guard, of demo_env]
  by (simp add: demo_world_eof_def demo_world_def demo_config_def end_exc_def)

lemma demo_interrupt_guard: "\<not> exists_py demo_world_interrupt (final_output_of demo_config)"
  by (simp add: demo_final exists_py_def demo_world_interrupt_def demo_world_def Path_def)

lemma demo_interrupt_raises:
  "fst (main demo_env demo_config demo_world_interrupt) = Inl KeyboardInterrupt"
  using main_eof [OF demo_interrupt_guard, of demo_env]
  by (simp add: demo_world_interrupt_def demo_world_def demo_config_def end_exc_def)

lemma script_trace:
  assumes "missing_commands e = []" and "exists_py w (Path (output_dir c))"
  shows "trace (snd (script e c w)) = trace (snd (main e c w)) @ top_events (fst (main e c w))"
  by (simp add: script_run [OF assms])

lemma demo_zero_final: "final_output_of demo_config_zero = Path ''report.pdf''"
  "final_output_of demo_config_negative = Path ''report.pdf''"
  by (simp_all add: final_output_of_def demo_config_zero_def demo_config_negative_def
      demo_config_def normalize_filename_def endswith_def Path_def joinpath_def)

lemma demo_zero_guard: "\<not> exists_py demo_world (final_output_of demo_config_zero)"
  "\<not> exists_py demo_world (final_output_of demo_config_negative)"
  by (simp_all add: demo_zero_final exists_py_def demo_world_def Path_def)

lemma demo_zero_dir: "exists_py v (Path (output_dir demo_config_zero))"
  "exists_py v (Path (output_dir demo_config_negative))"
  by (simp_all add: exists_py_def demo_config_zero_def demo_config_negative_def demo_config_def Path_def)

subsection \<open>Writes, the single page and the script\<close>

lemma outside_writes_append [simp]:
  "outside_writes d (xs @ ys) = outside_writes d xs @ outside_writes d ys"
  by (simp add: outside_writes_def)

lemma written_paths_scan_events:
  "written_paths (concat (map (scan_events c d) ps)) = map (page_raster d) ps"
  by (induction ps) (simp_all add: scan_events_def)

lemma written_paths_convert_event: "written_paths (convert_event c d i # evs) = written_paths evs"
  by (simp add: convert_event_def)

lemma written_paths_convert_events: "written_paths (map (convert_event c d) ps) = []"
  by (induction ps) (simp_all add: written_paths_convert_event)

lemma written_paths_assemble_events: "written_paths (assemble_events d n) = []"
  by (simp add: assemble_events_def)

lemma outside_writes_scan_events [simp]:
  "outside_writes d (concat (map (scan_events c d) ps)) = []"
  by (simp add: outside_writes_def written_paths_scan_events filter_empty_conv)

lemma outside_writes_convert_events [simp]: "outside_writes d (map (convert_event c d) ps) = []"
  by (simp add: outside_writes_def written_paths_convert_events)

lemma outside_writes_assemble_events [simp]: "outside_writes d (assemble_events d n) = []"
  by (simp add: outside_writes_def written_paths_assemble_events)

lemma outside_writes_simps [simp]:
  "outside_writes d [] = []"
  "outside_writes d (LogError m # evs) = outside_writes d evs"
  "outside_writes d (LogException x # evs) = outside_writes d evs"
  "outside_writes d (UsageError m # evs) = outside_writes d evs"
  "outside_writes d (Prompt m # evs) = outside_writes d evs"
  "outside_writes d (MkTemp p # evs) = outside_writes d evs"
  "outside_writes d (RmTemp p # evs) = outside_writes d evs"
  "outside_writes d (CopyFile src dst # evs) =
     (if inside d dst then outside_writes d evs else dst # outside_writes d evs)"
  by (simp_all add: outside_writes_def)

lemma main_outside_writes:
  assumes "\<not> inside (Path (tmpdir e)) (final_output_of c)"
  shows "outside_writes (Path (tmpdir e)) (trace (snd (main e c w))) =
     outside_writes (Path (tmpdir e)) (trace w)
       @ (if \<not> exists_py w (final_output_of c) \<and> nat (pages c) \<le> length (stdin w)
          then [final_output_of c] else [])"
proof (cases "exists_py w (final_output_of c)")
  case True
  then show ?thesis by (simp add: main_guard)
next
  case g: False
  show ?thesis
  proof (cases "nat (pages c) \<le> length (stdin w)")
    case True
    with g assms show ?thesis
      by (simp add: main_trace [OF g True])
  next
    case False
    then have lt: "length (stdin w) < nat (pages c)" by simp
    with g show ?thesis
      by (simp add: main_trace_eof [OF g lt])
  qed
qed

lemma main_completed:
  assumes "fst (main e c w) = Inr ()" and g: "\<not> exists_py w (final_output_of c)"
    and "final_output_of c \<noteq> Path (tmpdir e)"
    and "\<not> inside (Path (tmpdir e)) (final_output_of c)"
  shows "\<exists>content.
      fs (snd (pipeline e c (Path (tmpdir e)) (final_output_of c) (snd (mkdtemp e w))))
        (assembled (Path (tmpdir e)) (nat (pages c))) = Some (File content)
      \<and> fs (snd (main e c w)) (final_output_of c) = Some (File content)"
proof -
  let ?d = "Path (tmpdir e)" and ?f = "final_output_of c"
  let ?w1 = "snd (mkdtemp e w)"
  have m: "main e c w = (fst (pipeline e c ?d ?f ?w1), cleanup ?d (snd (pipeline e c ?d ?f ?w1)))"
    by (simp add: main_run [OF g] mkdtemp_eq)
  have s: "stdin ?w1 = stdin w"
    by (simp add: mkdtemp_eq)
  from assms(1) m have p: "fst (pipeline e c ?d ?f ?w1) = Inr ()"
    by simp
  have le: "nat (pages c) \<le> length (stdin ?w1)"
  proof (rule ccontr)
    assume "\<not> nat (pages c) \<le> length (stdin ?w1)"
    then have "length (stdin ?w1) < nat (pages c)" by simp
    from pipeline_eof [OF this] p show False by simp
  qed
  note run = pipeline_run [OF le, of e ?d ?f]
  from p obtain content where
    c: "fs (snd (pipeline e c ?d ?f ?w1)) ?f = Some (File content)"
    and src: "fs (snd (assemble e ?d (map (page_pdf ?d) [0..<nat (pages c)])
          (snd (convert_pages e c (map (page_raster ?d) [0..<nat (pages c)]) []
             (snd (capture e c ?d [0..<nat (pages c)] [] ?w1))))))
        (assembled ?d (nat (pages c))) = Some (File content)"
    unfolding run by (auto dest: copyfile_done)
  have ne: "assembled ?d (nat (pages c)) \<noteq> ?f"
    by (metis assembled_def inside_page(3) inside_child assms(4))
  have "fs (snd (pipeline e c ?d ?f ?w1)) (assembled ?d (nat (pages c))) = Some (File content)"
    unfolding run using src ne by (simp add: copyfile_frame)
  moreover have "fs (snd (main e c w)) ?f = Some (File content)"
    using c assms(3,4) by (simp add: m fs_cleanup)
  ultimately show ?thesis by blast
qed

lemma inside_parent: "inside d (parent f) \<Longrightarrow> inside d f"
proof -
  assume a: "inside d (parent f)"
  then have sp: "strict_prefix (parts d) (butlast (parts f))" and r: "rooted f = rooted d"
    by (simp_all add: inside_def parent_def)
  then have "parts f \<noteq> []" by auto
  then have "parts f = butlast (parts f) @ [last (parts f)]" by simp
  then have "prefix (butlast (parts f)) (parts f)" by (metis prefixI)
  with sp have "strict_prefix (parts d) (parts f)"
    by (metis prefix_order.less_le_trans)
  with r show ?thesis by (simp add: inside_def)
qed

lemma page_pdf_neq_raster [simp]: "page_pdf d i \<noteq> page_raster d j"
proof
  assume "page_pdf d i = page_raster d j"
  then have "''page_'' @ str_nat i @ ''.pdf'' = ''page_'' @ str_nat j @ ''.tiff''"
    by (simp add: page_pdf_def page_raster_def child_def)
  then have "length (str_nat i @ ''.pdf'') = length (str_nat j @ ''.tiff'')"
    and e: "str_nat i @ ''.pdf'' = str_nat j @ ''.tiff''" by simp_all
  then have "str_nat i = str_nat j @ ''.''"
    by (simp add: append_eq_append_conv_if split: if_splits)
  then have "CHR ''.'' \<in> set (str_nat i)" by simp
  with str_nat_no_dot show False by blast
qed

lemma single_page_pipeline:
  assumes "pages c = 1" and "stdin w = l # ls"
  shows "pipeline e c d final w =
     copyfile (page_pdf d 0) final (convert_step e c d 0 (snd (capture e c d [0] [] w)))"
proof -
  have n: "nat (pages c) = 1" "nat (pages c) \<le> length (stdin w)"
    using assms by simp_all
  have u: "[0..<1] = [0::nat]" by simp
  show ?thesis
    unfolding pipeline_run [OF n(2)] n(1) u
    by (simp add: assembled_def assemble_single convert_pages_Cons del: convert_pages.simps(2))
qed

lemma single_page_capture_fs:
  assumes "stdin w = l # ls"
  shows "fs (snd (capture e c d [0] [] w)) =
     (fs w)(page_raster d 0 \<mapsto> File (scanimage_out e (scanimage_argv c) 0))"
  by (simp only: capture_Cons_line [OF assms]) simp

lemma single_page_converted_fs:
  assumes "stdin w = l # ls"
  shows "fs (convert_step e c d 0 (snd (capture e c d [0] [] w))) =
     (case converter e c (scanimage_out e (scanimage_argv c) 0) of
        None \<Rightarrow> (fs w)(page_raster d 0 \<mapsto> File (scanimage_out e (scanimage_argv c) 0))
      | Some pdf \<Rightarrow> (fs w)(page_raster d 0 \<mapsto> File (scanimage_out e (scanimage_argv c) 0),
                          page_pdf d 0 \<mapsto> File pdf))"
  by (simp add: fs_convert_step read_file_def single_page_capture_fs [OF assms]
      del: capture.simps split: option.splits)

lemma single_page_publish:
  assumes one: "pages c = 1"
    and g: "\<not> exists_py w (final_output_of c)"
    and inp: "stdin w \<noteq> []"
    and ne: "final_output_of c \<noteq> Path (tmpdir e)"
    and out: "\<not> inside (Path (tmpdir e)) (final_output_of c)"
    and conv: "converter e c (scanimage_out e (scanimage_argv c) 0) = Some pdf"
    and par: "parts (parent (final_output_of c)) = [] \<or> fs w (parent (final_output_of c)) = Some Dir"
  shows "fst (main e c w) = Inr () \<and> fs (snd (main e c w)) (final_output_of c) = Some (File pdf)"
proof -
  let ?d = "Path (tmpdir e)" and ?f = "final_output_of c"
  let ?w1 = "snd (mkdtemp e w)"
  from inp obtain l ls where l: "stdin ?w1 = l # ls"
    by (cases "stdin w") (auto simp add: mkdtemp_eq)
  let ?w2 = "convert_step e c ?d 0 (snd (capture e c ?d [0] [] ?w1))"
  have m: "main e c w = (fst (pipeline e c ?d ?f ?w1), cleanup ?d (snd (pipeline e c ?d ?f ?w1)))"
    by (simp add: main_run [OF g] mkdtemp_eq)
  have p: "pipeline e c ?d ?f ?w1 = copyfile (page_pdf ?d 0) ?f ?w2"
    by (rule single_page_pipeline [OF one l])
  have fs2: "fs ?w2 = (fs w)(?d \<mapsto> Dir,
      page_raster ?d 0 \<mapsto> File (scanimage_out e (scanimage_argv c) 0),
      page_pdf ?d 0 \<mapsto> File pdf)"
    by (simp add: single_page_converted_fs [OF l] conv del: capture.simps) (simp add: mkdtemp_eq)
  have f1: "?f \<noteq> page_pdf ?d 0" "?f \<noteq> page_raster ?d 0"
    using out inside_page [of ?d 0] by metis+
  from g have f0: "fs w ?f = None"
    by (simp add: exists_py_def)
  have src: "fs ?w2 (page_pdf ?d 0) = Some (File pdf)"
    unfolding fs2 by simp
  have dst: "fs ?w2 ?f \<noteq> Some Dir"
    unfolding fs2 using f1 ne f0 by simp
  have "\<not> inside ?d (parent ?f)"
    using out inside_parent by blast
  then have p1: "parent ?f \<noteq> page_pdf ?d 0" "parent ?f \<noteq> page_raster ?d 0"
    using inside_page [of ?d 0] by metis+
  have pr: "parts (parent ?f) = [] \<or> fs ?w2 (parent ?f) = Some Dir"
    unfolding fs2 using par p1 by auto
  from copyfile_ok [OF src dst pr]
  have "pipeline e c ?d ?f ?w1 = (Inr (), write_file ?f pdf (emit (CopyFile (page_pdf ?d 0) ?f) ?w2))"
    by (simp only: p)
  with ne out show ?thesis
    by (simp add: m fs_cleanup del: capture.simps)
qed

lemma preflight_fail:
  "missing_commands e \<noteq> [] \<Longrightarrow>
   look_for_required_commands e w =
     (Some 1, w\<lparr> trace := trace w @ map (\<lambda>(cmd, msg). LogError msg) (missing_commands e) \<rparr>)"
  by (simp add: look_for_required_commands_def missing_commands_def required_commands_def
      emit_def Let_def split: if_splits)

lemma outside_writes_logs [simp]:
  "outside_writes d (map (\<lambda>(cmd, msg). LogError msg) xs) = []"
  by (induction xs) (simp_all add: split_beta)

lemma outside_writes_top_events [simp]: "outside_writes d (top_events r) = []"
  by (cases r) (simp_all add: top_events_def outside_writes_def)

lemma script_cases:
  "script e c w =
     (if missing_commands e \<noteq> []
      then (1, w\<lparr> trace := trace w @ map (\<lambda>(cmd, msg). LogError msg) (missing_commands e) \<rparr>)
      else if \<not> exists_py w (Path (output_dir c)) then (2, emit (UsageError (output_dir c)) w)
      else (exit_status (fst (main e c w)),
            (snd (main e c w))\<lparr> trace := trace (snd (main e c w)) @ top_events (fst (main e c w)) \<rparr>))"
  using script_run [of e w c]
  by (simp add: script_def preflight_fail preflight_ok cli_def)

lemma script_fs:
  "fs (snd (script e c w)) =
     (if missing_commands e = [] \<and> exists_py w (Path (output_dir c))
      then fs (snd (main e c w)) else fs w)"
  by (simp add: script_cases)

lemma script_outside_writes:
  assumes "\<not> inside (Path (tmpdir e)) (final_output_of c)"
  shows "outside_writes (Path (tmpdir e)) (trace (snd (script e c w))) =
     outside_writes (Path (tmpdir e)) (trace w)
       @ (if missing_commands e = [] \<and> exists_py w (Path (output_dir c))
             \<and> \<not> exists_py w (final_output_of c) \<and> nat (pages c) \<le> length (stdin w)
          then [final_output_of c] else [])"
  by (simp add: script_cases main_outside_writes [OF assms])

lemma demo_no_ocr_paths:
  "final_output_of demo_config_no_ocr \<noteq> Path (tmpdir demo_env)"
  "\<not> inside (Path (tmpdir demo_env)) (final_output_of demo_config_no_ocr)"
  "parts (parent (final_output_of demo_config_no_ocr)) = []"
  by (simp_all only: demo_no_ocr_final demo_tmp) (simp_all add: inside_def parent_def Path_def)

lemma demo_no_ocr_facts:
  "pages demo_config_no_ocr = 1"
  "stdin demo_world \<noteq> []"
  "final_output_of demo_config_no_ocr \<noteq> Path (tmpdir demo_env)"
  "\<not> inside (Path (tmpdir demo_env)) (final_output_of demo_config_no_ocr)"
  "converter demo_env demo_config_no_ocr
     (scanimage_out demo_env (scanimage_argv demo_config_no_ocr) 0) = Some ''img:tiff0''"
  "parts (parent (final_output_of demo_config_no_ocr)) = []"
  "exists_py demo_world (Path (output_dir demo_config_no_ocr))"
  "nat (pages demo_config_no_ocr) \<le> length (stdin demo_world)"
  by (simp_all add: demo_no_ocr_paths)
    (simp_all add: demo_config_no_ocr_def demo_config_def
      demo_world_def converter_def demo_env_def str_nat_small Path_def exists_py_def)

lemma demo_no_ocr_completes:
  "fst (main demo_env demo_config_no_ocr demo_world) = Inr ()
   \<and> fs (snd (main demo_env demo_config_no_ocr demo_world)) (final_output_of demo_config_no_ocr) =
       Some (File ''img:tiff0'')"
  by (rule single_page_publish [OF demo_no_ocr_facts(1) demo_no_ocr_guard demo_no_ocr_facts(2)
        demo_no_ocr_facts(3) demo_no_ocr_facts(4) demo_no_ocr_facts(5)])
    (simp add: demo_no_ocr_facts(6))

lemma demo_fresh:
  "\<forall>q. q = Path (tmpdir demo_env) \<or> inside (Path (tmpdir demo_env)) q \<longrightarrow> fs demo_world q = None"
  by (simp add: demo_world_def)
lemma runs_of_gs_scan [simp]: "runs_of ''gs'' (concat (map (scan_events c d) ps)) = []"
  by (simp add: runs_of_scan_events)

lemma demo_existing_guard: "exists_py demo_world_existing (final_output_of demo_config)"
  by (simp add: demo_final exists_py_def demo_world_existing_def)
lemma prompts_of_append [simp]: "prompts_of (xs @ ys) = prompts_of xs @ prompts_of ys"
  by (induction xs rule: prompts_of.induct) simp_all

lemma prompts_of_scan_events:
  "prompts_of (concat (map (scan_events c d) ps)) =
     map (\<lambda>i. ''Press Enter to scan page '' @ str_nat (i + 1)) ps"
  by (induction ps) (simp_all add: scan_events_def)

lemma prompts_of_convert_event: "prompts_of (convert_event c d i # evs) = prompts_of evs"
  by (simp add: convert_event_def)

lemma prompts_of_convert_events [simp]: "prompts_of (map (convert_event c d) ps) = []"
  by (induction ps) (simp_all add: prompts_of_convert_event)

lemma prompts_of_assemble_events [simp]: "prompts_of (assemble_events d n) = []"
  by (simp add: assemble_events_def)

lemma prompts_of_top_events [simp]: "prompts_of (top_events r) = []"
  by (cases r) (simp_all add: top_events_def)

lemma main_interrupted:
  assumes "fst (main e c w) = Inl x"
  shows "x = KeyboardInterrupt \<longleftrightarrow> length (stdin w) < nat (pages c) \<and> at_end w = Interrupted"
proof -
  from assms have g: "\<not> exists_py w (final_output_of c)"
    by (rule main_raises_guard)
  show ?thesis
  proof (cases "nat (pages c) \<le> length (stdin w)")
    case True
    from main_answered_status [OF True, of e] assms have "is_Exception x"
      by (simp add: exit_status_def split: if_splits)
    with True show ?thesis
      by (auto simp add: is_Exception_def)
  next
    case False
    then have lt: "length (stdin w) < nat (pages c)" by simp
    from main_eof [OF g lt, of e] assms have "x = end_exc (at_end w)" by simp
    with lt show ?thesis
      by (cases "at_end w") (simp_all add: end_exc_def)
  qed
qed

subsection \<open>The contents of the page files and the merged file\<close>

lemma page_raster_inj: "page_raster d i = page_raster d j \<Longrightarrow> i = j"
  by (auto simp add: page_raster_def dest!: child_inj str_nat_inj)

lemma final_pdf_neq_page [simp]:
  "child d ''final.pdf'' \<noteq> page_pdf d i" "child d ''final.pdf'' \<noteq> page_raster d i"
  by (auto simp add: page_pdf_def page_raster_def dest!: child_inj)

lemma read_file_cong: "fs v p = fs w p \<Longrightarrow> read_file v p = read_file w p"
  by (simp add: read_file_def)

lemma capture_fs_other:
  "(\<And>j. j \<in> set ps \<Longrightarrow> p \<noteq> page_raster d j) \<Longrightarrow> fs (snd (capture e c d ps pl w)) p = fs w p"
proof (induction ps arbitrary: pl w)
  case Nil
  then show ?case by simp
next
  case (Cons i ps)
  have ne: "p \<noteq> page_raster d i"
    using Cons.prems [of i] by simp
  have rest: "\<And>j. j \<in> set ps \<Longrightarrow> p \<noteq> page_raster d j"
    using Cons.prems by simp
  show ?case
  proof (cases "stdin w")
    case Nil
    then show ?thesis by (simp only: capture_Cons_eof) simp
  next
    case (Cons l ls)
    show ?thesis
      using ne by (simp only: capture_Cons_line [OF Cons]) (simp add: Cons.IH [OF rest])
  qed
qed

lemma capture_fs_page:
  "length ps \<le> length (stdin w) \<Longrightarrow> i \<in> set ps \<Longrightarrow>
   fs (snd (capture e c d ps pl w)) (page_raster d i) =
     Some (File (scanimage_out e (scanimage_argv c) i))"
proof (induction ps arbitrary: pl w)
  case Nil
  then show ?case by simp
next
  case (Cons j ps)
  then obtain l ls where l: "stdin w = l # ls"
    by (cases "stdin w") auto
  let ?w4 = "emit (Print (CHR 0x09 # ''Done!''))
          (run_scanimage e (scanimage_argv c) j (page_raster d j)
             (open_write (page_raster d j)
                ((emit (Prompt (''Press Enter to scan page '' @ str_nat (j + 1))) w)\<lparr> stdin := ls \<rparr>)))"
  have len: "length ps \<le> length (stdin ?w4)"
    using Cons.prems(1) l by simp
  show ?case
  proof (cases "i \<in> set ps")
    case True
    show ?thesis
      by (simp only: capture_Cons_line [OF l]) (rule Cons.IH [OF len True])
  next
    case False
    with Cons.prems(2) have ij: "i = j" by simp
    have "\<And>k. k \<in> set ps \<Longrightarrow> page_raster d i \<noteq> page_raster d k"
      using False page_raster_inj by blast
    from capture_fs_other [OF this, where w = ?w4 and e = e and c = c] show ?thesis
      by (simp only: capture_Cons_line [OF l]) (simp add: ij)
  qed
qed

lemma convert_pages_fs_other:
  "(\<And>j. j \<in> set ps \<Longrightarrow> p \<noteq> page_pdf d j) \<Longrightarrow>
   fs (snd (convert_pages e c (map (page_raster d) ps) pl w)) p = fs w p"
proof (induction ps arbitrary: pl w)
  case Nil
  then show ?case by simp
next
  case (Cons i ps)
  have ne: "p \<noteq> page_pdf d i"
    using Cons.prems [of i] by simp
  have rest: "\<And>j. j \<in> set ps \<Longrightarrow> p \<noteq> page_pdf d j"
    using Cons.prems by simp
  show ?case
    using ne
    by (simp add: convert_pages_Cons Cons.IH [OF rest] fs_convert_step
        del: convert_pages.simps(2) split: option.splits)
qed

lemma read_file_convert_step:
  "read_file (convert_step e c d j w) p =
     (if p = page_pdf d j
      then (case Option.bind (read_file w (page_raster d j)) (converter e c) of
              None \<Rightarrow> read_file w p | Some pdf \<Rightarrow> Some pdf)
      else read_file w p)"
  by (simp add: read_file_def fs_convert_step split: option.splits)

lemma convert_pages_fs_pdf:
  "(\<And>j. j \<in> set ps \<Longrightarrow> read_file w (page_raster d j) = Some (r j)) \<Longrightarrow> i \<in> set ps \<Longrightarrow>
   read_file (snd (convert_pages e c (map (page_raster d) ps) pl w)) (page_pdf d i) =
     (case converter e c (r i) of None \<Rightarrow> read_file w (page_pdf d i) | Some pdf \<Rightarrow> Some pdf)"
proof (induction ps arbitrary: pl w)
  case Nil
  then show ?case by simp
next
  case (Cons j ps)
  let ?w1 = "convert_step e c d j w"
  have rj: "read_file w (page_raster d j) = Some (r j)"
    using Cons.prems(1) [of j] by simp
  have inv: "\<And>k. k \<in> set ps \<Longrightarrow> read_file ?w1 (page_raster d k) = Some (r k)"
    using Cons.prems(1) by (simp add: read_file_convert_step page_pdf_neq_raster [THEN not_sym])
  have step: "read_file ?w1 (page_pdf d i) =
      (if i = j then (case converter e c (r j) of None \<Rightarrow> read_file w (page_pdf d i) | Some pdf \<Rightarrow> Some pdf)
       else read_file w (page_pdf d i))"
    using page_pdf_inj [of d i j] by (auto simp add: read_file_convert_step rj)
  show ?case
  proof (cases "i \<in> set ps")
    case True
    from Cons.IH [OF inv True] step show ?thesis
      by (simp add: convert_pages_Cons del: convert_pages.simps(2) split: option.splits)
  next
    case False
    with Cons.prems(2) have ij: "i = j" by simp
    have "\<And>k. k \<in> set ps \<Longrightarrow> page_pdf d i \<noteq> page_pdf d k"
      using False page_pdf_inj by blast
    from convert_pages_fs_other [OF this, where w = ?w1 and e = e and c = c
        and pl = "pl @ [page_pdf d j]"]
    have "read_file (snd (convert_pages e c (map (page_raster d) ps) (pl @ [page_pdf d j]) ?w1)) (page_pdf d i)
        = read_file ?w1 (page_pdf d i)"
      by (rule read_file_cong)
    with step ij show ?thesis
      by (simp add: convert_pages_Cons del: convert_pages.simps(2))
  qed
qed

lemma multi_page_publish:
  assumes many: "nat (pages c) \<noteq> 1"
    and g: "\<not> exists_py w (final_output_of c)"
    and inp: "nat (pages c) \<le> length (stdin w)"
    and fresh: "\<forall>q. inside (Path (tmpdir e)) q \<longrightarrow> fs w q = None"
    and ne: "final_output_of c \<noteq> Path (tmpdir e)"
    and out: "\<not> inside (Path (tmpdir e)) (final_output_of c)"
    and merged: "gs_out e GS_OPTIONS
        (map (\<lambda>i. converter e c (scanimage_out e (scanimage_argv c) i)) [0..<nat (pages c)]) =
        Some merged"
    and par: "parts (parent (final_output_of c)) = [] \<or> fs w (parent (final_output_of c)) = Some Dir"
  shows "fst (main e c w) = Inr () \<and> fs (snd (main e c w)) (final_output_of c) = Some (File merged)"
proof -
  let ?d = "Path (tmpdir e)" and ?f = "final_output_of c" and ?n = "nat (pages c)"
  let ?w1 = "snd (mkdtemp e w)"
  let ?wc = "snd (capture e c ?d [0..<?n] [] ?w1)"
  let ?w2 = "snd (convert_pages e c (map (page_raster ?d) [0..<?n]) [] ?wc)"
  let ?w3 = "snd (assemble e ?d (map (page_pdf ?d) [0..<?n]) ?w2)"
  let ?fp = "child ?d ''final.pdf''"
  have m: "main e c w = (fst (pipeline e c ?d ?f ?w1), cleanup ?d (snd (pipeline e c ?d ?f ?w1)))"
    by (simp add: main_run [OF g] mkdtemp_eq)
  have s1: "nat (pages c) \<le> length (stdin ?w1)"
    using inp by (simp add: mkdtemp_eq)
  have fs1: "fs ?w1 = (fs w)(?d \<mapsto> Dir)"
    by (simp add: mkdtemp_eq)
  have p: "pipeline e c ?d ?f ?w1 = copyfile ?fp ?f ?w3"
    using many by (simp add: pipeline_run [OF s1] assembled_def)
  have frame: "fs ?w2 q = fs ?w1 q" if "\<not> inside ?d q" for q
    using that by (simp add: convert_pages_frame capture_frame)
  have raster: "read_file ?wc (page_raster ?d j) = Some (scanimage_out e (scanimage_argv c) j)"
    if "j \<in> set [0..<?n]" for j
    using capture_fs_page [OF _ that, of ?w1 e c ?d "[]"] s1 by (simp add: read_file_def)
  have pdf_before: "read_file ?wc (page_pdf ?d i) = None" for i
  proof -
    have "fs ?wc (page_pdf ?d i) = fs ?w1 (page_pdf ?d i)"
      by (rule capture_fs_other) simp
    also have "\<dots> = None"
      using fresh inside_page(3) [of ?d i] by (simp add: fs1 page_pdf_def)
    finally show ?thesis by (simp add: read_file_def)
  qed
  have pdf: "read_file ?w2 (page_pdf ?d i) = converter e c (scanimage_out e (scanimage_argv c) i)"
    if "i \<in> set [0..<?n]" for i
    using convert_pages_fs_pdf [of "[0..<?n]" ?wc ?d "\<lambda>j. scanimage_out e (scanimage_argv c) j" i e c "[]",
        OF raster that]
    by (simp add: pdf_before split: option.splits)
  have "map (read_file ?w2 \<circ> page_pdf ?d) [0..<?n] =
      map (\<lambda>i. converter e c (scanimage_out e (scanimage_argv c) i)) [0..<?n]"
    using pdf by simp
  then have gs: "gs_out e GS_OPTIONS (map (read_file ?w2 \<circ> page_pdf ?d) [0..<?n]) = Some merged"
    using merged by (simp only:)
  have len: "length (map (page_pdf ?d) [0..<?n]) \<noteq> 1"
    using many by simp
  have fs3: "fs ?w3 = (fs ?w2)(?fp \<mapsto> File merged)"
    by (simp add: assemble_many [OF len] fs_run_gs gs del: capture.simps convert_pages.simps)
  have src: "fs ?w3 ?fp = Some (File merged)"
    by (simp add: fs3)
  have f_ne: "?f \<noteq> ?fp"
    using out inside_child [of ?d "''final.pdf''"] by metis
  from g have f0: "fs w ?f = None"
    by (simp add: exists_py_def)
  have dst: "fs ?w3 ?f \<noteq> Some Dir"
    using f_ne ne f0 out by (simp add: fs3 frame fs1)
  have po: "\<not> inside ?d (parent ?f)"
    using out inside_parent by blast
  then have p_ne: "parent ?f \<noteq> ?fp"
    using inside_child [of ?d "''final.pdf''"] by metis
  have pr: "parts (parent ?f) = [] \<or> fs ?w3 (parent ?f) = Some Dir"
    using par p_ne po by (auto simp add: fs3 frame fs1)
  from copyfile_ok [OF src dst pr]
  have "pipeline e c ?d ?f ?w1 = (Inr (), write_file ?f merged (emit (CopyFile ?fp ?f) ?w3))"
    by (simp only: p)
  with ne out show ?thesis
    by (simp add: m fs_cleanup del: capture.simps convert_pages.simps)
qed

lemma demo_paths2:
  "final_output_of demo_config \<noteq> Path (tmpdir demo_env)"
  "\<not> inside (Path (tmpdir demo_env)) (final_output_of demo_config)"
  "parts (parent (final_output_of demo_config)) = []"
  by (simp_all only: demo_final demo_tmp) (simp_all add: inside_def parent_def Path_def)

lemma demo_merged:
  "gs_out demo_env GS_OPTIONS
     (map (\<lambda>i. converter demo_env demo_config (scanimage_out demo_env (scanimage_argv demo_config) i))
        [0..<nat (pages demo_config)]) = Some ''ocr:tiff0ocr:tiff1''"
proof -
  have u: "[0..<nat (pages demo_config)] = [0, Suc 0]"
    by (simp add: demo_config_def upt_rec)
  show ?thesis
    unfolding u by (simp add: demo_env_def converter_def demo_config_def str_nat_small)
qed

section \<open>The claims\<close>

subsection \<open>Filename normalization\<close>

lemma endswith_suffix: "endswith s t \<longleftrightarrow> suffix t s"
proof
  assume "endswith s t"
  then have "s = take (length s - length t) s @ t"
    by (simp add: endswith_def) (metis append_take_drop_id)
  then show "suffix t s"
    by (metis suffixI)
next
  assume "suffix t s"
  then obtain zs where "s = zs @ t" by (auto simp: suffix_def)
  then show "endswith s t" by (simp add: endswith_def)
qed

text \<open>
  C7. The normalized filename always ends in \<^verbatim>\<open>.pdf\<close>: a filename that does not end
  in \<^verbatim>\<open>.pdf\<close> gets the suffix appended once, a filename that already ends in it is
  used unchanged, so normalizing twice adds nothing more; the final output path is the
  output directory joined with the normalized filename.
\<close>

theorem filename_normalization:
  "endswith (normalize_filename name) ''.pdf''
   \<and> (\<not> endswith name ''.pdf'' \<longrightarrow> normalize_filename name = name @ ''.pdf'')
   \<and> (endswith name ''.pdf'' \<longrightarrow> normalize_filename name = name)
   \<and> normalize_filename (normalize_filename name) = normalize_filename name
   \<and> final_output_of c = joinpath (Path (output_dir c)) (Path (normalize_filename (filename c)))"
  by (simp add: normalize_filename_def final_output_of_def endswith_def)

theorem filename_normalization_witness:
  "\<not> endswith ''report'' ''.pdf'' \<and> normalize_filename ''report'' = ''report.pdf''
   \<and> endswith ''scan.pdf'' ''.pdf'' \<and> normalize_filename ''scan.pdf'' = ''scan.pdf''
   \<and> normalize_filename (normalize_filename ''report'') = ''report.pdf''
   \<and> str_path (final_output_of demo_config) = ''report.pdf''"
  using filename_normalization [of "''report''" demo_config]
    filename_normalization [of "''scan.pdf''" demo_config]
  by (simp add: endswith_def normalize_filename_def final_output_of_def demo_config_def
      Path_def joinpath_def str_path_def)

subsection \<open>The output guard\<close>

text \<open>
  C1. When the final output path (the output directory joined with the normalized
  filename) already exists, \<^verbatim>\<open>main\<close> returns normally after one error line that names the
  path: the file system and standard input are as before and the error line is the only
  event, so no temporary directory is made, nothing is scanned and nothing is copied.
\<close>

theorem existing_output_refused:
  assumes "exists_py w (final_output_of c)"
  shows "fst (main e c w) = Inr ()
    \<and> fs (snd (main e c w)) = fs w
    \<and> stdin (snd (main e c w)) = stdin w
    \<and> trace (snd (main e c w)) =
        trace w @ [LogError (''Output pdf '' @ str_path (final_output_of c) @ '' already exists'')]"
  using assms by (simp add: main_guard)

theorem existing_output_refused_witness:
  "exists_py demo_world_existing (final_output_of demo_config)
   \<and> fst (main demo_env demo_config demo_world_existing) = Inr ()
   \<and> fs (snd (main demo_env demo_config demo_world_existing)) (Path ''report.pdf'') = Some (File ''old'')
   \<and> stdin (snd (main demo_env demo_config demo_world_existing)) = [[], []]
   \<and> trace (snd (main demo_env demo_config demo_world_existing)) =
        [LogError ''Output pdf report.pdf already exists'']"
proof -
  have f: "final_output_of demo_config = Path ''report.pdf''"
    by (simp add: final_output_of_def demo_config_def normalize_filename_def endswith_def
        Path_def joinpath_def)
  have s: "str_path (Path ''report.pdf'') = ''report.pdf''"
    by (simp add: Path_def str_path_def)
  have x: "exists_py demo_world_existing (final_output_of demo_config)"
    by (simp add: f exists_py_def demo_world_existing_def)
  from existing_output_refused [OF x, of demo_env] x show ?thesis
    by (simp add: f s demo_world_existing_def)
qed

subsection \<open>The check of the required commands\<close>

text \<open>
  C2. The check logs one error line for each of the four commands that is not found, in
  the order convert, tesseract, scanimage, gs. If any is missing the script ends with
  status 1 before the command line is read: the file system and standard input are
  untouched and the error lines are the only events. If all four are found the check
  changes nothing and the script goes on to the command line.
\<close>

theorem missing_commands_abort:
  "look_for_required_commands e w =
     ((if missing_commands e = [] then None else Some 1),
      w\<lparr> trace := trace w @ map (\<lambda>(cmd, msg). LogError msg) (missing_commands e) \<rparr>)
   \<and> (missing_commands e \<noteq> [] \<longrightarrow>
        fst (script e c w) = 1
        \<and> fs (snd (script e c w)) = fs w
        \<and> stdin (snd (script e c w)) = stdin w
        \<and> trace (snd (script e c w)) =
            trace w @ map (\<lambda>(cmd, msg). LogError msg) (missing_commands e))
   \<and> (missing_commands e = [] \<longrightarrow>
        look_for_required_commands e w = (None, w) \<and> script e c w = cli e c w)"
  by (simp add: look_for_required_commands_def missing_commands_def required_commands_def
      script_def emit_def Let_def)

theorem missing_commands_abort_witness:
  "missing_commands demo_env_only_gs \<noteq> []
   \<and> fst (script demo_env_only_gs demo_config demo_world) = 1
   \<and> fs (snd (script demo_env_only_gs demo_config demo_world)) = fs demo_world
   \<and> trace (snd (script demo_env_only_gs demo_config demo_world)) =
        [LogError ''ImageMagick command convert is not installed'',
         LogError ''Tesseract is not installed'',
         LogError ''Sane is not installed'']
   \<and> missing_commands demo_env = []
   \<and> look_for_required_commands demo_env demo_world = (None, demo_world)"
proof -
  have m1: "missing_commands demo_env_only_gs =
      [(''convert'', ''ImageMagick command convert is not installed''),
       (''tesseract'', ''Tesseract is not installed''),
       (''scanimage'', ''Sane is not installed'')]"
    by (simp add: missing_commands_def required_commands_def demo_env_only_gs_def)
  have m2: "missing_commands demo_env = []"
    by (simp add: missing_commands_def required_commands_def demo_env_def)
  have t: "trace demo_world = []"
    by (simp add: demo_world_def)
  from missing_commands_abort [of demo_env_only_gs demo_world demo_config] m1 t
  have a: "fst (script demo_env_only_gs demo_config demo_world) = 1
      \<and> fs (snd (script demo_env_only_gs demo_config demo_world)) = fs demo_world
      \<and> trace (snd (script demo_env_only_gs demo_config demo_world)) =
          [LogError ''ImageMagick command convert is not installed'',
           LogError ''Tesseract is not installed'',
           LogError ''Sane is not installed'']"
    by simp
  from missing_commands_abort [of demo_env demo_world demo_config] m2
  have b: "look_for_required_commands demo_env demo_world = (None, demo_world)"
    by simp
  from m1 m2 a b show ?thesis
    by simp
qed

subsection \<open>Assembly of several pages\<close>

text \<open>
  C3. In a run of \<open>N > 1\<close> pages the compositor is started exactly once when the run
  reaches the assembly (the output guard is passed and every prompt is answered) and not
  at all when it stops before: with the fixed options, an output file inside the
  temporary directory and the \<open>N\<close> page PDFs in the order \<open>0..N-1\<close>, each named once; the
  PDF of page \<open>i\<close> is the raster of page \<open>i\<close> with its suffix replaced. The start of the
  compositor is followed by the copy of its output file, and of no other file, to the
  final output path. So the final output of a completed run has the content of the
  compositor's output file; and with a fresh temporary directory that file is what the
  compositor makes of the converted pages \<open>0..N-1\<close>, every page once and in the order
  of capture, provided the compositor produces a file and the directory of the final
  output exists.
\<close>

theorem merge_invocation:
  assumes "1 < pages c"
  shows "runs_of ''gs'' (trace (snd (main e c w))) =
      runs_of ''gs'' (trace w) @
        (if \<not> exists_py w (final_output_of c) \<and> nat (pages c) \<le> length (stdin w)
         then [[''gs'', ''-sDEVICE=pdfwrite'', ''-dCompatibilityLevel=1.4'',
                ''-dPDFSETTINGS=/default'', ''-dNOPAUSE'', ''-dQUIET'', ''-dBATCH'',
                ''-dDetectDuplicateImages'', ''-dCompressFonts=true'', ''-r150'',
                ''-sOutputFile='' @ str_path (child (Path (tmpdir e)) ''final.pdf'')]
               @ map (\<lambda>i. str_path (page_pdf (Path (tmpdir e)) i)) [0..<nat (pages c)]]
         else [])
    \<and> inside (Path (tmpdir e)) (child (Path (tmpdir e)) ''final.pdf'')
    \<and> length (map (\<lambda>i. str_path (page_pdf (Path (tmpdir e)) i)) [0..<nat (pages c)]) = nat (pages c)
    \<and> distinct (map (\<lambda>i. str_path (page_pdf (Path (tmpdir e)) i)) [0..<nat (pages c)])
    \<and> with_suffix (page_raster (Path (tmpdir e)) i) ''.pdf'' = Some (page_pdf (Path (tmpdir e)) i)
    \<and> merge_argv (Path (tmpdir e)) (nat (pages c)) =
        [''gs'', ''-sDEVICE=pdfwrite'', ''-dCompatibilityLevel=1.4'',
         ''-dPDFSETTINGS=/default'', ''-dNOPAUSE'', ''-dQUIET'', ''-dBATCH'',
         ''-dDetectDuplicateImages'', ''-dCompressFonts=true'', ''-r150'',
         ''-sOutputFile='' @ str_path (child (Path (tmpdir e)) ''final.pdf'')]
        @ map (\<lambda>i. str_path (page_pdf (Path (tmpdir e)) i)) [0..<nat (pages c)]
    \<and> (\<not> exists_py w (final_output_of c) \<and> nat (pages c) \<le> length (stdin w) \<longrightarrow>
        trace (snd (main e c w)) =
          trace w @ [MkTemp (Path (tmpdir e))]
            @ concat (map (scan_events c (Path (tmpdir e))) [0..<nat (pages c)])
            @ map (convert_event c (Path (tmpdir e))) [0..<nat (pages c)]
            @ [PrintArgv (merge_argv (Path (tmpdir e)) (nat (pages c))),
               Run (merge_argv (Path (tmpdir e)) (nat (pages c))),
               CopyFile (child (Path (tmpdir e)) ''final.pdf'') (final_output_of c),
               RmTemp (Path (tmpdir e))])
    \<and> (\<not> exists_py w (final_output_of c)
        \<and> final_output_of c \<noteq> Path (tmpdir e)
        \<and> \<not> inside (Path (tmpdir e)) (final_output_of c)
        \<and> fst (main e c w) = Inr () \<longrightarrow>
         (\<exists>content.
            fs (snd (pipeline e c (Path (tmpdir e)) (final_output_of c) (snd (mkdtemp e w))))
              (child (Path (tmpdir e)) ''final.pdf'') = Some (File content)
            \<and> fs (snd (main e c w)) (final_output_of c) = Some (File content)))
    \<and> (\<not> exists_py w (final_output_of c) \<and> nat (pages c) \<le> length (stdin w)
        \<and> (\<forall>q. inside (Path (tmpdir e)) q \<longrightarrow> fs w q = None)
        \<and> final_output_of c \<noteq> Path (tmpdir e)
        \<and> \<not> inside (Path (tmpdir e)) (final_output_of c)
        \<and> gs_out e GS_OPTIONS
             (map (\<lambda>i. converter e c (scanimage_out e (scanimage_argv c) i)) [0..<nat (pages c)]) =
             Some merged
        \<and> (parts (parent (final_output_of c)) = [] \<or> fs w (parent (final_output_of c)) = Some Dir)
         \<longrightarrow> fst (main e c w) = Inr ()
             \<and> fs (snd (main e c w)) (final_output_of c) = Some (File merged))"
proof -
  from assms have n: "nat (pages c) \<noteq> 1" by simp
  have r: "runs_of ''gs'' (trace (snd (main e c w))) =
      runs_of ''gs'' (trace w) @
        (if \<not> exists_py w (final_output_of c) \<and> nat (pages c) \<le> length (stdin w)
         then [merge_argv (Path (tmpdir e)) (nat (pages c))] else [])"
  proof (cases "exists_py w (final_output_of c)")
    case True
    then show ?thesis by (simp add: main_guard)
  next
    case g: False
    show ?thesis
    proof (cases "nat (pages c) \<le> length (stdin w)")
      case True
      with g n show ?thesis
        by (simp add: main_trace [OF g True] runs_of_convert_events runs_of_assemble_events)
    next
      case False
      then have lt: "length (stdin w) < nat (pages c)" by simp
      with g show ?thesis
        by (simp add: main_trace_eof [OF g lt])
    qed
  qed
  have a: "merge_argv (Path (tmpdir e)) (nat (pages c)) =
        [''gs'', ''-sDEVICE=pdfwrite'', ''-dCompatibilityLevel=1.4'',
         ''-dPDFSETTINGS=/default'', ''-dNOPAUSE'', ''-dQUIET'', ''-dBATCH'',
         ''-dDetectDuplicateImages'', ''-dCompressFonts=true'', ''-r150'',
         ''-sOutputFile='' @ str_path (child (Path (tmpdir e)) ''final.pdf'')]
        @ map (\<lambda>i. str_path (page_pdf (Path (tmpdir e)) i)) [0..<nat (pages c)]"
    by (simp add: merge_argv_def GS_OPTIONS_def)
  have t: "\<not> exists_py w (final_output_of c) \<and> nat (pages c) \<le> length (stdin w) \<longrightarrow>
        trace (snd (main e c w)) =
          trace w @ [MkTemp (Path (tmpdir e))]
            @ concat (map (scan_events c (Path (tmpdir e))) [0..<nat (pages c)])
            @ map (convert_event c (Path (tmpdir e))) [0..<nat (pages c)]
            @ [PrintArgv (merge_argv (Path (tmpdir e)) (nat (pages c))),
               Run (merge_argv (Path (tmpdir e)) (nat (pages c))),
               CopyFile (child (Path (tmpdir e)) ''final.pdf'') (final_output_of c),
               RmTemp (Path (tmpdir e))]"
    using n by (auto simp add: main_trace assemble_events_def assembled_def)
  have d: "\<not> exists_py w (final_output_of c)
        \<and> final_output_of c \<noteq> Path (tmpdir e)
        \<and> \<not> inside (Path (tmpdir e)) (final_output_of c)
        \<and> fst (main e c w) = Inr () \<longrightarrow>
         (\<exists>content.
            fs (snd (pipeline e c (Path (tmpdir e)) (final_output_of c) (snd (mkdtemp e w))))
              (child (Path (tmpdir e)) ''final.pdf'') = Some (File content)
            \<and> fs (snd (main e c w)) (final_output_of c) = Some (File content))"
    using main_completed [of e c w] n by (simp add: assembled_def)
  have p: "\<not> exists_py w (final_output_of c) \<and> nat (pages c) \<le> length (stdin w)
        \<and> (\<forall>q. inside (Path (tmpdir e)) q \<longrightarrow> fs w q = None)
        \<and> final_output_of c \<noteq> Path (tmpdir e)
        \<and> \<not> inside (Path (tmpdir e)) (final_output_of c)
        \<and> gs_out e GS_OPTIONS
             (map (\<lambda>i. converter e c (scanimage_out e (scanimage_argv c) i)) [0..<nat (pages c)]) =
             Some merged
        \<and> (parts (parent (final_output_of c)) = [] \<or> fs w (parent (final_output_of c)) = Some Dir)
         \<longrightarrow> fst (main e c w) = Inr ()
             \<and> fs (snd (main e c w)) (final_output_of c) = Some (File merged)"
    using multi_page_publish [OF n, of w e merged] by blast
  have o: "runs_of ''gs'' (trace (snd (main e c w))) =
      runs_of ''gs'' (trace w) @
        (if \<not> exists_py w (final_output_of c) \<and> nat (pages c) \<le> length (stdin w)
         then [[''gs'', ''-sDEVICE=pdfwrite'', ''-dCompatibilityLevel=1.4'',
                ''-dPDFSETTINGS=/default'', ''-dNOPAUSE'', ''-dQUIET'', ''-dBATCH'',
                ''-dDetectDuplicateImages'', ''-dCompressFonts=true'', ''-r150'',
                ''-sOutputFile='' @ str_path (child (Path (tmpdir e)) ''final.pdf'')]
               @ map (\<lambda>i. str_path (page_pdf (Path (tmpdir e)) i)) [0..<nat (pages c)]]
         else [])
    \<and> inside (Path (tmpdir e)) (child (Path (tmpdir e)) ''final.pdf'')
    \<and> length (map (\<lambda>i. str_path (page_pdf (Path (tmpdir e)) i)) [0..<nat (pages c)]) = nat (pages c)
    \<and> distinct (map (\<lambda>i. str_path (page_pdf (Path (tmpdir e)) i)) [0..<nat (pages c)])
    \<and> with_suffix (page_raster (Path (tmpdir e)) i) ''.pdf'' = Some (page_pdf (Path (tmpdir e)) i)"
    using r by (simp add: merge_argv_def GS_OPTIONS_def distinct_page_pdf_args with_suffix_page)
  from o a t d p show ?thesis by blast
qed

theorem merge_invocation_witness:
  "1 < pages demo_config
   \<and> \<not> exists_py demo_world (final_output_of demo_config)
   \<and> nat (pages demo_config) \<le> length (stdin demo_world)
   \<and> runs_of ''gs'' (trace (snd (main demo_env demo_config demo_world))) =
       [[''gs'', ''-sDEVICE=pdfwrite'', ''-dCompatibilityLevel=1.4'', ''-dPDFSETTINGS=/default'',
         ''-dNOPAUSE'', ''-dQUIET'', ''-dBATCH'', ''-dDetectDuplicateImages'',
         ''-dCompressFonts=true'', ''-r150'',
         ''-sOutputFile=/tmp/tmpab12cd/final.pdf'',
         ''/tmp/tmpab12cd/page_0.pdf'', ''/tmp/tmpab12cd/page_1.pdf'']]
   \<and> exists_py demo_world_existing (final_output_of demo_config)
   \<and> runs_of ''gs'' (trace (snd (main demo_env demo_config demo_world_existing))) = []
   \<and> fs demo_world = Map.empty
   \<and> final_output_of demo_config \<noteq> Path (tmpdir demo_env)
   \<and> \<not> inside (Path (tmpdir demo_env)) (final_output_of demo_config)
   \<and> gs_out demo_env GS_OPTIONS
        (map (\<lambda>i. converter demo_env demo_config
                     (scanimage_out demo_env (scanimage_argv demo_config) i))
           [0..<nat (pages demo_config)]) = Some ''ocr:tiff0ocr:tiff1''
   \<and> parts (parent (final_output_of demo_config)) = []
   \<and> fst (main demo_env demo_config demo_world) = Inr ()
   \<and> fs (snd (main demo_env demo_config demo_world)) (Path ''report.pdf'') =
       Some (File ''ocr:tiff0ocr:tiff1'')"
proof -
  have p: "1 < pages demo_config" "nat (pages demo_config) \<le> length (stdin demo_world)"
    "nat (pages demo_config) = 2" "trace demo_world = []" "trace demo_world_existing = []"
    by (simp_all add: demo_config_def demo_world_def demo_world_existing_def)
  have u: "[0..<2] = [0, Suc 0]"
    by (simp add: upt_rec)
  have f: "fs demo_world = Map.empty" "\<forall>q. inside (Path (tmpdir demo_env)) q \<longrightarrow> fs demo_world q = None"
    by (simp_all add: demo_world_def)
  note th = merge_invocation [OF p(1), of demo_env demo_world 0 "''ocr:tiff0ocr:tiff1''"]
  have a: "runs_of ''gs'' (trace (snd (main demo_env demo_config demo_world))) =
       [[''gs'', ''-sDEVICE=pdfwrite'', ''-dCompatibilityLevel=1.4'', ''-dPDFSETTINGS=/default'',
         ''-dNOPAUSE'', ''-dQUIET'', ''-dBATCH'', ''-dDetectDuplicateImages'',
         ''-dCompressFonts=true'', ''-r150'',
         ''-sOutputFile=/tmp/tmpab12cd/final.pdf'',
         ''/tmp/tmpab12cd/page_0.pdf'', ''/tmp/tmpab12cd/page_1.pdf'']]"
    using th [THEN conjunct1] demo_guard p
    by (simp add: demo_paths page_pdf_def str_nat_small u)
  have b: "runs_of ''gs'' (trace (snd (main demo_env demo_config demo_world_existing))) = []"
    using merge_invocation [OF p(1), of demo_env demo_world_existing 0, THEN conjunct1]
      demo_existing_guard p
    by simp
  have c: "fst (main demo_env demo_config demo_world) = Inr ()
      \<and> fs (snd (main demo_env demo_config demo_world)) (final_output_of demo_config) =
          Some (File ''ocr:tiff0ocr:tiff1'')"
    using th demo_guard p(2) f(2) demo_paths2 demo_merged by blast
  from a b c p demo_guard demo_existing_guard f(1) demo_paths2 demo_merged show ?thesis
    by (simp add: demo_final)
qed

subsection \<open>Conversion of the pages\<close>

text \<open>
  C8. In every run, each page is converted by exactly one tool once the capture loop has
  finished (the output guard is passed and every prompt is answered; before that no
  conversion is started): the OCR engine for every page and never the plain converter
  when \<^verbatim>\<open>--no-ocr\<close> is unset, the plain converter for every page and never the OCR
  engine when it is set. The PDF path of a page is its raster path with the suffix
  replaced by \<^verbatim>\<open>.pdf\<close>, and the loop appends these paths to the list in the order of
  the pages.
\<close>

theorem one_converter_per_page:
  "runs_of ''tesseract'' (trace (snd (main e c w))) =
      runs_of ''tesseract'' (trace w) @
        (if \<not> no_ocr c \<and> \<not> exists_py w (final_output_of c) \<and> nat (pages c) \<le> length (stdin w)
         then map (\<lambda>i. [''tesseract'', str_path (page_raster (Path (tmpdir e)) i),
                         str_path (page_base (Path (tmpdir e)) i), ''pdf''])
                [0..<nat (pages c)]
         else [])
    \<and> runs_of ''convert'' (trace (snd (main e c w))) =
      runs_of ''convert'' (trace w) @
        (if no_ocr c \<and> \<not> exists_py w (final_output_of c) \<and> nat (pages c) \<le> length (stdin w)
         then map (\<lambda>i. [''convert'', str_path (page_raster (Path (tmpdir e)) i),
                         str_path (page_pdf (Path (tmpdir e)) i)])
                [0..<nat (pages c)]
         else [])
    \<and> with_suffix (page_raster d i) ''.pdf'' = Some (page_pdf d i)
    \<and> fst (convert_pages e c (map (page_raster d) ps) pdf_list v) =
        Inr (pdf_list @ map (page_pdf d) ps)
    \<and> trace (snd (convert_pages e c (map (page_raster d) ps) pdf_list v)) =
        trace v @ map (convert_event c d) ps"
proof -
  have "runs_of prog (trace (snd (main e c w))) =
      runs_of prog (trace w) @
        (if \<not> exists_py w (final_output_of c) \<and> nat (pages c) \<le> length (stdin w)
         then runs_of prog (map (convert_event c (Path (tmpdir e))) [0..<nat (pages c)])
         else [])"
    if "prog = ''tesseract'' \<or> prog = ''convert''" for prog
  proof (cases "exists_py w (final_output_of c)")
    case True
    then show ?thesis by (simp add: main_guard)
  next
    case g: False
    show ?thesis
    proof (cases "nat (pages c) \<le> length (stdin w)")
      case True
      with g that show ?thesis
        by (auto simp add: main_trace [OF g True] runs_of_scan_events runs_of_assemble_events
            merge_argv_def)
    next
      case False
      then have lt: "length (stdin w) < nat (pages c)" by simp
      with g that show ?thesis
        by (auto simp add: main_trace_eof [OF g lt] runs_of_scan_events)
    qed
  qed
  from this [of "''tesseract''"] this [of "''convert''"] show ?thesis
    by (simp add: runs_of_convert_events with_suffix_page convert_pages_result
        convert_pages_trace)
qed

theorem one_converter_per_page_witness:
  "\<not> no_ocr demo_config
   \<and> \<not> exists_py demo_world (final_output_of demo_config)
   \<and> nat (pages demo_config) \<le> length (stdin demo_world)
   \<and> runs_of ''tesseract'' (trace (snd (main demo_env demo_config demo_world))) =
       [[''tesseract'', ''/tmp/tmpab12cd/page_0.tiff'', ''/tmp/tmpab12cd/page_0'', ''pdf''],
        [''tesseract'', ''/tmp/tmpab12cd/page_1.tiff'', ''/tmp/tmpab12cd/page_1'', ''pdf'']]
   \<and> runs_of ''convert'' (trace (snd (main demo_env demo_config demo_world))) = []
   \<and> no_ocr demo_config_no_ocr
   \<and> \<not> exists_py demo_world (final_output_of demo_config_no_ocr)
   \<and> nat (pages demo_config_no_ocr) \<le> length (stdin demo_world)
   \<and> runs_of ''tesseract'' (trace (snd (main demo_env demo_config_no_ocr demo_world))) = []
   \<and> runs_of ''convert'' (trace (snd (main demo_env demo_config_no_ocr demo_world))) =
       [[''convert'', ''/tmp/tmpab12cd/page_0.tiff'', ''/tmp/tmpab12cd/page_0.pdf'']]"
proof -
  have p: "nat (pages demo_config) \<le> length (stdin demo_world)"
    "nat (pages demo_config) = 2" "trace demo_world = []" "\<not> no_ocr demo_config"
    by (simp_all add: demo_config_def demo_world_def)
  have q: "nat (pages demo_config_no_ocr) \<le> length (stdin demo_world)"
    "nat (pages demo_config_no_ocr) = 1" "no_ocr demo_config_no_ocr"
    by (simp_all add: demo_config_no_ocr_def demo_config_def demo_world_def)
  have u: "[0..<2] = [0, Suc 0]"
    by (simp add: upt_rec)
  from one_converter_per_page [of demo_env demo_config demo_world]
    one_converter_per_page [of demo_env demo_config_no_ocr demo_world]
    demo_guard demo_no_ocr_guard p q
  show ?thesis
    by (simp add: demo_paths page_pdf_def page_raster_def page_base_def str_nat_small u)
qed

subsection \<open>The scanner device\<close>

text \<open>
  C10. When no scanner device is given, every start of the scan driver carries the device
  argument \<^verbatim>\<open>-d None\<close>: the option is neither left out nor refused. The driver is
  started once for each page whose prompt was answered, in a run that passes the output
  guard.
\<close>

theorem absent_device_is_None:
  assumes "sane_device c = None"
  shows "runs_of ''scanimage'' (trace (snd (main e c w))) =
      runs_of ''scanimage'' (trace w) @
        replicate (if exists_py w (final_output_of c) then 0
                   else min (nat (pages c)) (length (stdin w)))
          [''scanimage'', ''-d'', ''None'',
           ''--resolution'', str_int (sane_resolution c),
           ''--brightness'', str_int (sane_brightness c),
           ''--contrast'', str_int (sane_contrast c),
           ''--mode'', sane_mode c,
           ''--format'', ''tiff'']"
proof (cases "exists_py w (final_output_of c)")
  case True
  then show ?thesis by (simp add: main_guard)
next
  case g: False
  show ?thesis
  proof (cases "nat (pages c) \<le> length (stdin w)")
    case True
    then show ?thesis
      using assms g
      by (simp add: main_trace [OF g True] runs_of_scan_events runs_of_convert_events
          runs_of_assemble_events merge_argv_def scanimage_argv_def fmt_optional_def min_def)
  next
    case False
    then have lt: "length (stdin w) < nat (pages c)" by simp
    show ?thesis
      using assms lt g
      by (simp add: main_trace_eof [OF g lt] runs_of_scan_events scanimage_argv_def
          fmt_optional_def min_def)
  qed
qed

theorem absent_device_is_None_witness:
  "sane_device demo_config = None
   \<and> \<not> exists_py demo_world (final_output_of demo_config)
   \<and> runs_of ''scanimage'' (trace (snd (main demo_env demo_config demo_world))) =
       [[''scanimage'', ''-d'', ''None'', ''--resolution'', ''150'', ''--brightness'', ''0'',
         ''--contrast'', ''0'', ''--mode'', ''Color'', ''--format'', ''tiff''],
        [''scanimage'', ''-d'', ''None'', ''--resolution'', ''150'', ''--brightness'', ''0'',
         ''--contrast'', ''0'', ''--mode'', ''Color'', ''--format'', ''tiff'']]"
proof -
  have d: "sane_device demo_config = None"
    by (simp add: demo_config_def)
  have s: "str_int 150 = ''150''" "str_int 0 = ''0''"
    by (simp_all add: str_int_def str_nat.simps digit_char_def)
  have r: "replicate (min (nat (pages demo_config)) (length (stdin demo_world))) x = [x, x]" for x :: "string list"
    by (simp add: demo_config_def demo_world_def numeral_2_eq_2)
  from absent_device_is_None [OF d, of demo_env demo_world] d demo_guard show ?thesis
    by (simp add: r) (simp add: demo_config_def demo_world_def s)
qed

subsection \<open>An exception in the pipeline\<close>

text \<open>
  C5 (as amended). When the body of \<^verbatim>\<open>main\<close> raises an exception, the temporary
  directory has been removed by then. An exception that is a subclass of
  \<^verbatim>\<open>Exception\<close> (every one but the operator's interrupt) is caught by the decorator
  and logged, the decorated function returns normally and the script ends with exit status
  0, not with a failure status. The operator's interrupt, which \<^verbatim>\<open>main\<close> raises exactly
  when Ctrl-C is pressed at a prompt, is not caught by the decorator and not logged: the
  command-line layer prints that it aborted and the script ends with exit status 1.
\<close>

theorem exception_at_top_level:
  assumes "missing_commands e = []"
    and "exists_py w (Path (output_dir c))"
    and "fst (main e c w) = Inl x"
  shows "(is_Exception x \<longrightarrow>
        fst (script e c w) = 0
        \<and> trace (snd (script e c w)) = trace (snd (main e c w)) @ [LogException x])
    \<and> (\<not> is_Exception x \<longrightarrow>
        fst (script e c w) = 1
        \<and> trace (snd (script e c w)) = trace (snd (main e c w)) @ [Aborted])
    \<and> (is_Exception x \<longleftrightarrow> x \<noteq> KeyboardInterrupt)
    \<and> (x = KeyboardInterrupt \<longleftrightarrow> length (stdin w) < nat (pages c) \<and> at_end w = Interrupted)
    \<and> last (trace (snd (main e c w))) = RmTemp (Path (tmpdir e))
    \<and> fs (snd (script e c w)) (Path (tmpdir e)) = None"
proof -
  from assms(3) have g: "\<not> exists_py w (final_output_of c)"
    by (rule main_raises_guard)
  have a: "is_Exception x \<longrightarrow>
        fst (script e c w) = 0
        \<and> trace (snd (script e c w)) = trace (snd (main e c w)) @ [LogException x]"
    using assms(3) by (simp add: script_run [OF assms(1) assms(2)])
  have b: "\<not> is_Exception x \<longrightarrow>
        fst (script e c w) = 1
        \<and> trace (snd (script e c w)) = trace (snd (main e c w)) @ [Aborted]"
    using assms(3) by (simp add: script_run [OF assms(1) assms(2)] is_Exception_def)
  have c: "last (trace (snd (main e c w))) = RmTemp (Path (tmpdir e))"
    "fs (snd (script e c w)) (Path (tmpdir e)) = None"
    by (simp_all add: script_run [OF assms(1) assms(2)] main_run [OF g] fs_cleanup)
  from a b c main_interrupted [OF assms(3)] show ?thesis
    by (simp add: is_Exception_def)
qed

theorem exception_at_top_level_witness:
  "missing_commands demo_env = []
   \<and> exists_py demo_world_eof (Path (output_dir demo_config))
   \<and> fst (main demo_env demo_config demo_world_eof) = Inl EOFError
   \<and> is_Exception EOFError
   \<and> fst (script demo_env demo_config demo_world_eof) = 0
   \<and> last (trace (snd (script demo_env demo_config demo_world_eof))) = LogException EOFError
   \<and> fs (snd (script demo_env demo_config demo_world_eof)) (Path (tmpdir demo_env)) = None
   \<and> exists_py demo_world_interrupt (Path (output_dir demo_config))
   \<and> fst (main demo_env demo_config demo_world_interrupt) = Inl KeyboardInterrupt
   \<and> \<not> is_Exception KeyboardInterrupt
   \<and> fst (script demo_env demo_config demo_world_interrupt) = 1
   \<and> last (trace (snd (script demo_env demo_config demo_world_interrupt))) = Aborted
   \<and> fs (snd (script demo_env demo_config demo_world_interrupt)) (Path (tmpdir demo_env)) = None"
  using exception_at_top_level [OF demo_missing demo_dir demo_eof_raises]
    exception_at_top_level [OF demo_missing demo_dir demo_interrupt_raises]
    demo_missing demo_dir [of demo_world_eof] demo_dir [of demo_world_interrupt]
    demo_eof_raises demo_interrupt_raises
  by simp

subsection \<open>The claim as stated fails: the exit status after an exception\<close>

text \<open>
  C5 as stated says that the process exits with a non-zero status after an exception. With
  standard input at its end the first prompt raises \<^verbatim>\<open>EOFError\<close>, which is logged, and
  the exit status is 0.
\<close>

theorem exception_exit_status_counterexample:
  "fst (main demo_env demo_config demo_world_eof) = Inl EOFError
   \<and> fst (script demo_env demo_config demo_world_eof) = 0
   \<and> trace (snd (script demo_env demo_config demo_world_eof)) =
       [MkTemp (Path ''/tmp/tmpab12cd''),
        Prompt ''Press Enter to scan page 1'',
        RmTemp (Path ''/tmp/tmpab12cd''),
        LogException EOFError]"
proof -
  have l: "length (stdin demo_world_eof) < nat (pages demo_config)" "stdin demo_world_eof = []"
    "trace demo_world_eof = []"
    by (simp_all add: demo_world_eof_def demo_world_def demo_config_def)
  have t: "tmpdir demo_env = ''/tmp/tmpab12cd''"
    by (simp add: demo_env_def)
  from demo_eof_raises script_run [OF demo_missing demo_dir, of demo_world_eof] show ?thesis
    by (simp add: main_trace_eof [OF demo_eof_guard l(1)] l t str_nat_small)
qed

subsection \<open>The page count\<close>

text \<open>
  C6 (as amended). The page count is an integer whose sign is not checked. A run that
  passes the output guard and whose prompts are all answered is not refused whatever the
  count: the exit status is 0, the temporary directory is made first, and there is one
  prompt, one start of the scan driver and one conversion for each index below the count.
  So a positive count \<open>N\<close> runs the loops \<open>N\<close> times, and for a zero or negative count
  the loops run zero times: no prompt, no scan and no conversion.
\<close>

theorem page_count_not_checked:
  assumes "missing_commands e = []"
    and "exists_py w (Path (output_dir c))"
    and "\<not> exists_py w (final_output_of c)"
    and "nat (pages c) \<le> length (stdin w)"
  shows "fst (script e c w) = 0
    \<and> take (Suc (length (trace w))) (trace (snd (script e c w))) = trace w @ [MkTemp (Path (tmpdir e))]
    \<and> runs_of ''scanimage'' (trace (snd (script e c w))) =
        runs_of ''scanimage'' (trace w) @ replicate (nat (pages c)) (scanimage_argv c)
    \<and> (pages c \<le> 0 \<longrightarrow>
         runs_of ''scanimage'' (trace (snd (script e c w))) = runs_of ''scanimage'' (trace w)
         \<and> runs_of ''tesseract'' (trace (snd (script e c w))) = runs_of ''tesseract'' (trace w)
         \<and> runs_of ''convert'' (trace (snd (script e c w))) = runs_of ''convert'' (trace w))
    \<and> prompts_of (trace (snd (script e c w))) =
        prompts_of (trace w)
          @ map (\<lambda>i. ''Press Enter to scan page '' @ str_nat (i + 1)) [0..<nat (pages c)]
    \<and> runs_of ''tesseract'' (trace (snd (script e c w))) =
        runs_of ''tesseract'' (trace w) @
          (if no_ocr c then []
           else map (\<lambda>i. [''tesseract'', str_path (page_raster (Path (tmpdir e)) i),
                           str_path (page_base (Path (tmpdir e)) i), ''pdf''])
                  [0..<nat (pages c)])
    \<and> runs_of ''convert'' (trace (snd (script e c w))) =
        runs_of ''convert'' (trace w) @
          (if no_ocr c
           then map (\<lambda>i. [''convert'', str_path (page_raster (Path (tmpdir e)) i),
                           str_path (page_pdf (Path (tmpdir e)) i)])
                  [0..<nat (pages c)]
           else [])"
  by (simp add: script_run [OF assms(1) assms(2)] main_answered_status [OF assms(4)]
      main_trace [OF assms(3) assms(4)] runs_of_scan_events runs_of_convert_events
      runs_of_assemble_events merge_argv_def prompts_of_scan_events)

theorem page_count_not_checked_witness:
  "missing_commands demo_env = []
   \<and> exists_py demo_world (Path (output_dir demo_config_negative))
   \<and> \<not> exists_py demo_world (final_output_of demo_config_negative)
   \<and> nat (pages demo_config_negative) \<le> length (stdin demo_world)
   \<and> pages demo_config_negative = - 3
   \<and> fst (script demo_env demo_config_negative demo_world) = 0
   \<and> take 1 (trace (snd (script demo_env demo_config_negative demo_world))) =
       [MkTemp (Path ''/tmp/tmpab12cd'')]
   \<and> runs_of ''scanimage'' (trace (snd (script demo_env demo_config_negative demo_world))) = []"
proof -
  have p: "pages demo_config_negative = - 3" "nat (pages demo_config_negative) \<le> length (stdin demo_world)"
    "trace demo_world = []"
    by (simp_all add: demo_config_negative_def demo_world_def)
  have t: "tmpdir demo_env = ''/tmp/tmpab12cd''"
    by (simp add: demo_env_def)
  from page_count_not_checked [OF demo_missing demo_zero_dir(2) demo_zero_guard(2) p(2)]
    demo_missing demo_zero_dir(2) [of demo_world] demo_zero_guard(2) p t
  show ?thesis
    by simp
qed

subsection \<open>The claim as stated fails: a page count of zero\<close>

text \<open>
  C6 as stated says that a zero or negative page count is rejected before the capture
  loop. With a count of 0 the script makes the temporary directory, starts the compositor
  with no input and copies its output: the run ends with status 0.
\<close>

theorem page_count_zero_counterexample:
  "pages demo_config_zero = 0
   \<and> fst (script demo_env demo_config_zero demo_world) = 0
   \<and> trace (snd (script demo_env demo_config_zero demo_world)) =
       [MkTemp (Path ''/tmp/tmpab12cd''),
        PrintArgv [''gs'', ''-sDEVICE=pdfwrite'', ''-dCompatibilityLevel=1.4'',
          ''-dPDFSETTINGS=/default'', ''-dNOPAUSE'', ''-dQUIET'', ''-dBATCH'',
          ''-dDetectDuplicateImages'', ''-dCompressFonts=true'', ''-r150'',
          ''-sOutputFile=/tmp/tmpab12cd/final.pdf''],
        Run [''gs'', ''-sDEVICE=pdfwrite'', ''-dCompatibilityLevel=1.4'',
          ''-dPDFSETTINGS=/default'', ''-dNOPAUSE'', ''-dQUIET'', ''-dBATCH'',
          ''-dDetectDuplicateImages'', ''-dCompressFonts=true'', ''-r150'',
          ''-sOutputFile=/tmp/tmpab12cd/final.pdf''],
        CopyFile (Path ''/tmp/tmpab12cd/final.pdf'') (Path ''report.pdf''),
        RmTemp (Path ''/tmp/tmpab12cd'')]"
proof -
  have n: "nat (pages demo_config_zero) \<le> length (stdin demo_world)" "nat (pages demo_config_zero) = 0"
    "pages demo_config_zero = 0" "trace demo_world = []"
    by (simp_all add: demo_config_zero_def demo_world_def)
  have t: "tmpdir demo_env = ''/tmp/tmpab12cd''"
    by (simp add: demo_env_def)
  have c: "child (Path ''/tmp/tmpab12cd'') ''final.pdf'' = Path ''/tmp/tmpab12cd/final.pdf''"
    by (simp add: child_def Path_def)
  have s: "str_path (Path ''/tmp/tmpab12cd/final.pdf'') = ''/tmp/tmpab12cd/final.pdf''"
    by (simp add: str_path_def Path_def)
  have r: "fst (main demo_env demo_config_zero demo_world) = Inr ()"
    by (simp add: main_run [OF demo_zero_guard(1)] pipeline_run n assembled_def assemble_many t)
      (simp add: c s copyfile_def run_gs_def Let_def demo_env_def demo_world_def
        demo_zero_final Path_def parent_def write_file_def emit_def)
  from r show ?thesis
    by (simp add: script_run [OF demo_missing demo_zero_dir(1)]
        main_trace [OF demo_zero_guard(1) n(1)] n t assemble_events_def merge_argv_def
        GS_OPTIONS_def assembled_def c s demo_zero_final)
qed

subsection \<open>A single page\<close>

text \<open>
  C4. In a run of exactly one page the compositor is never started. When the run passes
  the output guard and the prompt is answered, the scan and the one conversion are
  followed directly by the copy of the page's PDF itself to the final output path. When the
  run completes, the final output file has the content of that page's PDF in the
  temporary directory; and it does complete, with the converter's output as the content of
  the final file, whenever the converter produced the PDF and the directory of the final
  output exists. (For the content, the temporary directory is not the final output path
  and does not contain it.)
\<close>

theorem single_page_is_final:
  assumes "pages c = 1"
  shows "runs_of ''gs'' (trace (snd (main e c w))) = runs_of ''gs'' (trace w)
    \<and> (\<not> exists_py w (final_output_of c) \<and> stdin w \<noteq> [] \<longrightarrow>
        trace (snd (main e c w)) =
          trace w @ [MkTemp (Path (tmpdir e))] @ scan_events c (Path (tmpdir e)) 0
            @ [convert_event c (Path (tmpdir e)) 0,
               CopyFile (page_pdf (Path (tmpdir e)) 0) (final_output_of c),
               RmTemp (Path (tmpdir e))])
    \<and> (\<not> exists_py w (final_output_of c)
        \<and> final_output_of c \<noteq> Path (tmpdir e)
        \<and> \<not> inside (Path (tmpdir e)) (final_output_of c)
        \<and> fst (main e c w) = Inr () \<longrightarrow>
         (\<exists>content.
            fs (snd (pipeline e c (Path (tmpdir e)) (final_output_of c) (snd (mkdtemp e w))))
              (page_pdf (Path (tmpdir e)) 0) = Some (File content)
            \<and> fs (snd (main e c w)) (final_output_of c) = Some (File content)))
    \<and> (\<not> exists_py w (final_output_of c) \<and> stdin w \<noteq> []
        \<and> final_output_of c \<noteq> Path (tmpdir e)
        \<and> \<not> inside (Path (tmpdir e)) (final_output_of c)
        \<and> converter e c (scanimage_out e (scanimage_argv c) 0) = Some pdf
        \<and> (parts (parent (final_output_of c)) = [] \<or> fs w (parent (final_output_of c)) = Some Dir)
         \<longrightarrow> fst (main e c w) = Inr ()
             \<and> fs (snd (main e c w)) (final_output_of c) = Some (File pdf))"
proof -
  have n: "nat (pages c) = 1"
    using assms by simp
  have t: "trace (snd (main e c w)) =
        trace w @ [MkTemp (Path (tmpdir e))] @ scan_events c (Path (tmpdir e)) 0
          @ [convert_event c (Path (tmpdir e)) 0,
             CopyFile (page_pdf (Path (tmpdir e)) 0) (final_output_of c),
             RmTemp (Path (tmpdir e))]"
    if g: "\<not> exists_py w (final_output_of c)" and i: "stdin w \<noteq> []"
  proof -
    from i n have le: "nat (pages c) \<le> length (stdin w)"
      by (simp add: Suc_le_eq)
    show ?thesis
      by (simp add: main_trace [OF g le] n assemble_events_def assembled_def)
  qed
  have r: "runs_of ''gs'' (trace (snd (main e c w))) = runs_of ''gs'' (trace w)"
  proof (cases "exists_py w (final_output_of c)")
    case True
    then show ?thesis by (simp add: main_guard)
  next
    case g: False
    show ?thesis
    proof (cases "stdin w")
      case Nil
      then have lt: "length (stdin w) < nat (pages c)" using n by simp
      show ?thesis
        by (simp add: main_trace_eof [OF g lt] Nil)
    next
      case (Cons l ls)
      then have "stdin w \<noteq> []" by simp
      from t [OF g this] show ?thesis
        by (simp add: scan_events_def scanimage_argv_def convert_event_def)
    qed
  qed
  have d: "\<not> exists_py w (final_output_of c)
        \<and> final_output_of c \<noteq> Path (tmpdir e)
        \<and> \<not> inside (Path (tmpdir e)) (final_output_of c)
        \<and> fst (main e c w) = Inr () \<longrightarrow>
         (\<exists>content.
            fs (snd (pipeline e c (Path (tmpdir e)) (final_output_of c) (snd (mkdtemp e w))))
              (page_pdf (Path (tmpdir e)) 0) = Some (File content)
            \<and> fs (snd (main e c w)) (final_output_of c) = Some (File content))"
    using main_completed [of e c w] by (simp add: n assembled_def)
  have p: "\<not> exists_py w (final_output_of c) \<and> stdin w \<noteq> []
        \<and> final_output_of c \<noteq> Path (tmpdir e)
        \<and> \<not> inside (Path (tmpdir e)) (final_output_of c)
        \<and> converter e c (scanimage_out e (scanimage_argv c) 0) = Some pdf
        \<and> (parts (parent (final_output_of c)) = [] \<or> fs w (parent (final_output_of c)) = Some Dir)
         \<longrightarrow> fst (main e c w) = Inr ()
             \<and> fs (snd (main e c w)) (final_output_of c) = Some (File pdf)"
    using single_page_publish [OF assms, of w e pdf] by blast
  from r t d p show ?thesis by blast
qed

theorem single_page_is_final_witness:
  "pages demo_config_no_ocr = 1
   \<and> \<not> exists_py demo_world (final_output_of demo_config_no_ocr)
   \<and> stdin demo_world \<noteq> []
   \<and> final_output_of demo_config_no_ocr \<noteq> Path (tmpdir demo_env)
   \<and> \<not> inside (Path (tmpdir demo_env)) (final_output_of demo_config_no_ocr)
   \<and> converter demo_env demo_config_no_ocr
        (scanimage_out demo_env (scanimage_argv demo_config_no_ocr) 0) = Some ''img:tiff0''
   \<and> parts (parent (final_output_of demo_config_no_ocr)) = []
   \<and> runs_of ''gs'' (trace (snd (main demo_env demo_config_no_ocr demo_world))) = []
   \<and> fst (main demo_env demo_config_no_ocr demo_world) = Inr ()
   \<and> fs (snd (main demo_env demo_config_no_ocr demo_world)) (Path ''scan.pdf'') =
       Some (File ''img:tiff0'')"
proof -
  have t: "trace demo_world = []"
    by (simp add: demo_world_def)
  from single_page_is_final [OF demo_no_ocr_facts(1), of demo_env demo_world "''img:tiff0''"]
    demo_no_ocr_facts demo_no_ocr_guard t
  show ?thesis
    by (simp add: demo_no_ocr_final scan_events_def scanimage_argv_def convert_event_def)
qed

subsection \<open>The publishing copy\<close>

text \<open>
  C9. With a fresh temporary directory that neither is nor contains the final output
  path, a run of the script changes the file system at no path but the final output path:
  everything inside the temporary directory is gone at the end and nothing else is
  touched. Of the paths the script writes to itself, all lie inside the temporary
  directory except the target of the publishing copy, which occurs at most once and
  exactly when the run reaches the copy. A run that completes has created a file at the
  final output path, where there was none.
\<close>

theorem publish_is_only_outside_write:
  assumes "\<forall>q. q = Path (tmpdir e) \<or> inside (Path (tmpdir e)) q \<longrightarrow> fs w q = None"
    and "final_output_of c \<noteq> Path (tmpdir e)"
    and "\<not> inside (Path (tmpdir e)) (final_output_of c)"
  shows "(\<forall>p. p \<noteq> final_output_of c \<longrightarrow> fs (snd (script e c w)) p = fs w p)
    \<and> outside_writes (Path (tmpdir e)) (trace (snd (script e c w))) =
        outside_writes (Path (tmpdir e)) (trace w)
          @ (if missing_commands e = [] \<and> exists_py w (Path (output_dir c))
                \<and> \<not> exists_py w (final_output_of c) \<and> nat (pages c) \<le> length (stdin w)
             then [final_output_of c] else [])
    \<and> (missing_commands e = [] \<and> exists_py w (Path (output_dir c))
        \<and> \<not> exists_py w (final_output_of c) \<and> fst (main e c w) = Inr ()
        \<longrightarrow> fs w (final_output_of c) = None
            \<and> (\<exists>content. fs (snd (script e c w)) (final_output_of c) = Some (File content)))"
proof -
  have a: "\<forall>p. p \<noteq> final_output_of c \<longrightarrow> fs (snd (script e c w)) p = fs w p"
    using main_frame [of e w _ c] assms(1) by (simp add: script_fs)
  have c: "missing_commands e = [] \<and> exists_py w (Path (output_dir c))
        \<and> \<not> exists_py w (final_output_of c) \<and> fst (main e c w) = Inr ()
        \<longrightarrow> fs w (final_output_of c) = None
            \<and> (\<exists>content. fs (snd (script e c w)) (final_output_of c) = Some (File content))"
    using main_completed [OF _ _ assms(2) assms(3), of w]
    by (auto simp add: script_fs exists_py_def)
  from a c script_outside_writes [OF assms(3)] show ?thesis by blast
qed

theorem publish_is_only_outside_write_witness:
  "fs demo_world = Map.empty
   \<and> final_output_of demo_config_no_ocr \<noteq> Path (tmpdir demo_env)
   \<and> \<not> inside (Path (tmpdir demo_env)) (final_output_of demo_config_no_ocr)
   \<and> fs (snd (script demo_env demo_config_no_ocr demo_world)) (Path (tmpdir demo_env)) = None
   \<and> fs (snd (script demo_env demo_config_no_ocr demo_world))
        (page_pdf (Path (tmpdir demo_env)) 0) = None
   \<and> outside_writes (Path (tmpdir demo_env))
        (trace (snd (script demo_env demo_config_no_ocr demo_world))) = [Path ''scan.pdf'']
   \<and> fs demo_world (Path ''scan.pdf'') = None
   \<and> fs (snd (script demo_env demo_config_no_ocr demo_world)) (Path ''scan.pdf'') =
       Some (File ''img:tiff0'')"
proof -
  note th = publish_is_only_outside_write [OF demo_fresh demo_no_ocr_facts(3) demo_no_ocr_facts(4)]
  have t: "outside_writes (Path (tmpdir demo_env)) (trace demo_world) = []"
    "fs demo_world q = None" for q
    by (simp_all add: demo_world_def)
  have ne: "Path (tmpdir demo_env) \<noteq> final_output_of demo_config_no_ocr"
    "page_pdf (Path (tmpdir demo_env)) 0 \<noteq> final_output_of demo_config_no_ocr"
    using demo_no_ocr_facts(3,4) inside_page(3) [of "Path (tmpdir demo_env)" 0] by metis+
  have a: "fs (snd (script demo_env demo_config_no_ocr demo_world)) (Path (tmpdir demo_env)) = None"
    "fs (snd (script demo_env demo_config_no_ocr demo_world)) (page_pdf (Path (tmpdir demo_env)) 0) = None"
    using th ne t(2) by simp_all
  have b: "outside_writes (Path (tmpdir demo_env))
        (trace (snd (script demo_env demo_config_no_ocr demo_world))) = [Path ''scan.pdf'']"
    using th demo_missing demo_no_ocr_facts(7,8) demo_no_ocr_guard t(1)
    by (simp add: demo_no_ocr_final)
  have c: "fs (snd (script demo_env demo_config_no_ocr demo_world)) (Path ''scan.pdf'') =
       Some (File ''img:tiff0'')"
    using demo_no_ocr_completes demo_missing demo_no_ocr_facts(7)
    by (simp add: script_fs demo_no_ocr_final)
  have e: "fs demo_world = Map.empty"
    by (simp add: demo_world_def)
  from a b c t(2) e demo_no_ocr_facts(3,4) show ?thesis
    by blast
qed

end
